theory Spec2Isabelle
  imports Complex_Main
begin

section \<open>The weather CSV pipeline\<close>

text \<open>
  A shallow embedding of the three variants of the Visual Crossing fetcher:
  \<^verbatim>\<open>src/workflows/full_pipeline.py\<close> (retrying session, CLI with placeholder mode),
  \<^verbatim>\<open>src/full_pipeline.py\<close> and \<^verbatim>\<open>src/fetch_weather_csv.py\<close> (plain \<^verbatim>\<open>requests.get\<close>).
  Everything the code obtains from outside is a parameter of the model: the clock and the
  time-zone database, the replies of the server, the pandas parser, and the faults of the
  file system. Exceptions are values of the type \<open>error\<close>.
\<close>

subsection \<open>Exceptions\<close>

text \<open>
  One constructor per exception that can leave the modelled functions. The source raises
  \<^verbatim>\<open>RuntimeError\<close> with two message shapes; they are kept apart here under the names the
  specification uses: \<open>HttpError status preview\<close> is
  \<^verbatim>\<open>RuntimeError(f"HTTP {r.status_code} - {preview}")\<close> and \<open>SchemaError miss present\<close> is
  \<^verbatim>\<open>RuntimeError(f"Beklenen kolon(lar) yok: {miss} | Gelenler: {list(df.columns)}")\<close>.
  \<open>RequestsHTTPError\<close> is \<^verbatim>\<open>requests.HTTPError\<close>, which holds the response;
  \<open>RetryError\<close> is \<^verbatim>\<open>requests.exceptions.RetryError\<close> ("too many N error responses").
  The type variable is the type of a character of a response body.
\<close>

datatype 'c error =
    ZoneInfoNotFoundError string
  | OverflowError
  | ValueError
  | TypeError
  | KeyError string
  | RetryError int
  | RequestsHTTPError int "'c list"
  | HttpError int "'c list"
  | ReadCsvError
  | SchemaError "string set" "string list"
  | OSError string
  | SystemExit int

subsection \<open>Calendar dates (Python's \<^verbatim>\<open>datetime.date\<close>)\<close>

record date =
  year :: int
  month :: int
  day :: int

definition MAXORDINAL :: int where
  "MAXORDINAL = 3652059"

definition DAYS_IN_MONTH :: "int list" where
  "DAYS_IN_MONTH = [-1, 31, 28, 31, 30, 31, 30, 31, 31, 30, 31, 30, 31]"

definition DAYS_BEFORE_MONTH :: "int list" where
  "DAYS_BEFORE_MONTH = [-1, 0, 31, 59, 90, 120, 151, 181, 212, 243, 273, 304, 334]"

definition is_leap :: "int \<Rightarrow> bool" where
  "is_leap y \<longleftrightarrow> y mod 4 = 0 \<and> (y mod 100 \<noteq> 0 \<or> y mod 400 = 0)"

definition days_before_year :: "int \<Rightarrow> int" where
  "days_before_year yr = (let y = yr - 1 in y * 365 + y div 4 - y div 100 + y div 400)"

definition days_before_month :: "int \<Rightarrow> int \<Rightarrow> int" where
  "days_before_month y m =
     DAYS_BEFORE_MONTH ! nat m + (if m > 2 \<and> is_leap y then 1 else 0)"

definition ymd2ord :: "int \<Rightarrow> int \<Rightarrow> int \<Rightarrow> int" where
  "ymd2ord y m d = days_before_year y + days_before_month y m + d"

definition DI400Y :: int where "DI400Y = days_before_year 401"
definition DI100Y :: int where "DI100Y = days_before_year 101"
definition DI4Y :: int where "DI4Y = days_before_year 5"

text \<open>
  The tail of \<^verbatim>\<open>_ord2ymd\<close>: from the offset \<open>n\<close> of a day in its year to month and day,
  by the estimate \<^verbatim>\<open>(n + 50) >> 5\<close> that is exact or one too large.
\<close>

definition month_day :: "bool \<Rightarrow> int \<Rightarrow> int \<times> int" where
  "month_day leapyear n =
    (let month = (n + 50) div 32;
         preceding = DAYS_BEFORE_MONTH ! nat month + (if month > 2 \<and> leapyear then 1 else 0)
     in if preceding > n
        then (let month' = month - 1;
                  preceding' = preceding -
                    (DAYS_IN_MONTH ! nat month' + (if month' = 2 \<and> leapyear then 1 else 0))
              in (month', n - preceding' + 1))
        else (month, n - preceding + 1))"

definition ord2ymd :: "int \<Rightarrow> int \<times> int \<times> int" where
  "ord2ymd n0 =
    (let n = n0 - 1;
         n400 = n div DI400Y; n = n mod DI400Y;
         y = n400 * 400 + 1;
         n100 = n div DI100Y; n = n mod DI100Y;
         n4 = n div DI4Y; n = n mod DI4Y;
         n1 = n div 365; n = n mod 365;
         y = y + n100 * 100 + n4 * 4 + n1
     in if n1 = 4 \<or> n100 = 4 then (y - 1, 12, 31)
        else (let leapyear = (n1 = 3 \<and> (n4 \<noteq> 24 \<or> n100 = 3));
                  (m, d) = month_day leapyear n
              in (y, m, d)))"

definition toordinal :: "date \<Rightarrow> int" where
  "toordinal d = ymd2ord (year d) (month d) (day d)"

definition fromordinal :: "int \<Rightarrow> date" where
  "fromordinal n = (case ord2ymd n of (y, m, d) \<Rightarrow> \<lparr>year = y, month = m, day = d\<rparr>)"

text \<open>\<^verbatim>\<open>date.weekday()\<close>: Monday is 0, Sunday is 6.\<close>

definition weekday :: "date \<Rightarrow> int" where
  "weekday d = (toordinal d + 6) mod 7"

text \<open>\<^verbatim>\<open>date + timedelta(days=k)\<close>, which raises outside years 1 to 9999.\<close>

definition date_add :: "date \<Rightarrow> int \<Rightarrow> 'c error + date" where
  "date_add d k =
    (let ord = toordinal d + k
     in if 0 < ord \<and> ord \<le> MAXORDINAL then Inr (fromordinal ord) else Inl OverflowError)"

subsection \<open>The date window\<close>

text \<open>
  A time zone is its UTC offset, in seconds, at each instant (a POSIX timestamp in whole
  seconds); \<^verbatim>\<open>ZoneInfo(tz_name)\<close> looks the name up in the host's database and raises when
  it is not there. The clock is the parameter \<open>now\<close>.
\<close>

type_synonym tzinfo = "int \<Rightarrow> int"

definition local_ordinal :: "int \<Rightarrow> tzinfo \<Rightarrow> int" where
  "local_ordinal now tz = 719163 + (now + tz now) div 86400"

text \<open>
  \<^verbatim>\<open>datetime.now(tz).date()\<close>: the UTC time of the clock is built first (out of range:
  \<^verbatim>\<open>ValueError\<close>), then moved by the zone's offset (out of range: \<^verbatim>\<open>OverflowError\<close>).
\<close>

definition now_date :: "int \<Rightarrow> tzinfo \<Rightarrow> 'c error + date" where
  "now_date now tz =
    (let utc = 719163 + now div 86400
     in if \<not> (0 < utc \<and> utc \<le> MAXORDINAL) then Inl ValueError
        else (let ord = local_ordinal now tz
              in if 0 < ord \<and> ord \<le> MAXORDINAL then Inr (fromordinal ord)
                 else Inl OverflowError))"

definition compute_dates ::
  "(string \<Rightarrow> tzinfo option) \<Rightarrow> int \<Rightarrow> string \<Rightarrow> 'c error + date \<times> date" where
  "compute_dates zoneinfo now tz_name =
    (case zoneinfo tz_name of
       None \<Rightarrow> Inl (ZoneInfoNotFoundError tz_name)
     | Some tz \<Rightarrow>
        (case now_date now tz of
           Inl e \<Rightarrow> Inl e
         | Inr today_local \<Rightarrow>
            (case date_add today_local 1 of
               Inl e \<Rightarrow> Inl e
             | Inr tomorrow \<Rightarrow>
                (case date_add tomorrow 6 of
                   Inl e \<Rightarrow> Inl e
                 | Inr week_end \<Rightarrow> Inr (tomorrow, week_end)))))"

text \<open>
  The rules of America/Los_Angeles in force in 2024, for the scenario of the
  specification: daylight time (UTC-7) from 2024-03-10 10:00 UTC to 2024-11-03 09:00 UTC,
  standard time (UTC-8) outside.
\<close>

definition Los_Angeles_2024 :: tzinfo where
  "Los_Angeles_2024 t = (if 1710064800 \<le> t \<and> t < 1730624400 then - 25200 else - 28800)"

definition zoneinfo_2024 :: "string \<Rightarrow> tzinfo option" where
  "zoneinfo_2024 name =
     (if name = ''America/Los_Angeles'' then Some Los_Angeles_2024
      else if name = ''UTC'' then Some (\<lambda>t. 0) else None)"

subsection \<open>The retrying session (urllib3's \<^verbatim>\<open>Retry\<close> behind \<^verbatim>\<open>requests\<close>)\<close>

text \<open>
  A reply of the server: its status, whether it carries a \<^verbatim>\<open>Retry-After\<close> header, and its
  decoded body \<^verbatim>\<open>r.text\<close>. The server is the sequence of its replies to successive requests
  for one URL; connection failures and timeouts are outside the model.
\<close>

record 'c response =
  status_code :: int
  has_retry_after :: bool
  response_text :: "'c list"

text \<open>
  The counters of \<^verbatim>\<open>Retry\<close> that the source sets (\<^verbatim>\<open>status\<close>, \<^verbatim>\<open>redirect\<close> and \<^verbatim>\<open>other\<close>
  stay \<^verbatim>\<open>None\<close>), and the statuses of the replies retried so far.
\<close>

record retry =
  retry_total :: int
  retry_read :: int
  retry_connect :: int
  backoff_factor :: rat
  status_forcelist :: "int list"
  allowed_methods :: "string list"
  history :: "int list"

definition RETRY_AFTER_STATUS_CODES :: "int list" where
  "RETRY_AFTER_STATUS_CODES = [413, 429, 503]"

definition DEFAULT_BACKOFF_MAX :: rat where
  "DEFAULT_BACKOFF_MAX = 120"

text \<open>\<^verbatim>\<open>filter(None, retry_counts)\<close> drops the counters that are \<^verbatim>\<open>None\<close> or zero.\<close>

definition is_exhausted :: "retry \<Rightarrow> bool" where
  "is_exhausted r =
    (let retry_counts = filter (\<lambda>c. c \<noteq> 0) [retry_total r, retry_connect r, retry_read r]
     in if retry_counts = [] then False else min_list retry_counts < 0)"

definition is_retry :: "retry \<Rightarrow> string \<Rightarrow> int \<Rightarrow> bool \<Rightarrow> bool" where
  "is_retry r method status retry_after =
    (if allowed_methods r \<noteq> [] \<and> method \<notin> set (allowed_methods r) then False
     else if status_forcelist r \<noteq> [] \<and> status \<in> set (status_forcelist r) then True
     else retry_total r \<noteq> 0 \<and> retry_after \<and> status \<in> set RETRY_AFTER_STATUS_CODES)"

text \<open>
  \<^verbatim>\<open>Retry.increment\<close> for a reply that is retried: one less in \<^verbatim>\<open>total\<close>, and
  \<^verbatim>\<open>MaxRetryError\<close> when the new object is exhausted; the adapter of \<^verbatim>\<open>requests\<close> turns
  that into \<^verbatim>\<open>RetryError\<close>.
\<close>

definition increment :: "retry \<Rightarrow> int \<Rightarrow> 'c error + retry" where
  "increment r status =
    (let new_retry = r\<lparr>retry_total := retry_total r - 1, history := history r @ [status]\<rparr>
     in if is_exhausted new_retry then Inl (RetryError status) else Inr new_retry)"

text \<open>The delay before the next attempt, for replies without \<^verbatim>\<open>Retry-After\<close>.\<close>

definition get_backoff_time :: "retry \<Rightarrow> rat" where
  "get_backoff_time r =
    (let consecutive_errors_len = length (history r)
     in if consecutive_errors_len \<le> 1 then 0
        else min DEFAULT_BACKOFF_MAX (backoff_factor r * 2 ^ (consecutive_errors_len - 1)))"

function urlopen :: "retry \<Rightarrow> (nat \<Rightarrow> 'c response) \<Rightarrow> nat \<Rightarrow> 'c error + 'c response" where
  "urlopen retries server k =
    (let response = server k
     in if is_retry retries ''GET'' (status_code response) (has_retry_after response)
        then (case increment retries (status_code response) of
                Inl e \<Rightarrow> Inl e
              | Inr retries' \<Rightarrow> urlopen retries' server (Suc k))
        else Inr response)"
  by pat_completeness auto

text \<open>
  The loop ends: an increment that does not raise leaves \<^verbatim>\<open>total\<close> one smaller and not
  negative.
\<close>

termination urlopen
proof (relation "measure (\<lambda>(r, server, k). nat (retry_total r))")
  show "wf (measure (\<lambda>(r, server, k). nat (retry_total r)))" by simp
next
  fix retries :: retry and server :: "nat \<Rightarrow> 'c response" and k
    and response :: "'c response" and x2
  assume "increment retries (status_code response) = (Inr x2 :: 'c error + retry)"
  then have "0 \<le> retry_total x2 \<and> retry_total x2 = retry_total retries - 1"
    by (auto simp: increment_def is_exhausted_def Let_def split: if_splits)
  then show "((x2, server, Suc k), retries, server, k)
      \<in> measure (\<lambda>(r, server, k). nat (retry_total r))"
    by simp
qed

record session =
  max_retries :: retry
  request_timeout :: int

definition session_with_retry :: "int \<Rightarrow> rat \<Rightarrow> int \<Rightarrow> session" where
  "session_with_retry total_arg backoff timeout =
    \<lparr>max_retries =
       \<lparr>retry_total = total_arg, retry_read = total_arg, retry_connect = total_arg,
        backoff_factor = backoff, status_forcelist = [429, 500, 502, 503, 504],
        allowed_methods = [''GET''], history = []\<rparr>,
     request_timeout = timeout\<rparr>"

text \<open>The defaults of \<^verbatim>\<open>_session_with_retry(total=4, backoff=0.5, timeout=30)\<close>.\<close>

definition default_session :: session where
  "default_session = session_with_retry 4 (1 / 2) 30"

definition sess_get :: "session \<Rightarrow> (nat \<Rightarrow> 'c response) \<Rightarrow> 'c error + 'c response" where
  "sess_get sess server = urlopen (max_retries sess) server 0"

text \<open>
  \<^verbatim>\<open>requests.get\<close> of the two plain variants: the default adapter has no retries, so the
  first reply is the result.
\<close>

definition requests_get :: "(nat \<Rightarrow> 'c response) \<Rightarrow> 'c error + 'c response" where
  "requests_get server = Inr (server 0)"

text \<open>\<^verbatim>\<open>Response.raise_for_status\<close> raises for the statuses 400 to 599 and for no other.\<close>

definition raises_for_status :: "'c response \<Rightarrow> bool" where
  "raises_for_status r \<longleftrightarrow> 400 \<le> status_code r \<and> status_code r < 600"

subsection \<open>Tables (pandas \<^verbatim>\<open>DataFrame\<close>)\<close>

text \<open>
  A cell of a parsed table: a number of the column's numeric dtype, the missing value, or
  a string of an \<^verbatim>\<open>object\<close> column. The type of numbers is left open: \<open>-\<close>, \<open><\<close> and
  \<open>\<le>\<close> are the dtype's own operations, whatever their rounding. A table is the list of
  its labelled columns, in order; the labels need not differ (\<^verbatim>\<open>rename\<close> can make two
  equal).
\<close>

datatype 'a cell = Num 'a | NaN | Str string

type_synonym 'a frame = "(string \<times> 'a cell list) list"

definition columns :: "'a frame \<Rightarrow> string list" where
  "columns df = map fst df"

text \<open>All the columns that carry a label.\<close>

definition labelled :: "'a frame \<Rightarrow> string \<Rightarrow> 'a cell list list" where
  "labelled df c = map snd (filter (\<lambda>p. fst p = c) df)"

text \<open>
  \<^verbatim>\<open>df[c]\<close> as the source uses it, for a \<^verbatim>\<open>Series\<close>. Where the label is there twice pandas
  hands back a sub-table, and each use the source makes of it
  (\<^verbatim>\<open>pd.to_datetime\<close>, arithmetic against a \<^verbatim>\<open>Series\<close>, assigning it to one column)
  raises \<^verbatim>\<open>ValueError\<close>.
\<close>

definition getitem :: "'a frame \<Rightarrow> string \<Rightarrow> 'c error + 'a cell list" where
  "getitem df c =
    (case labelled df c of
       [] \<Rightarrow> Inl (KeyError c)
     | [xs] \<Rightarrow> Inr xs
     | _ \<Rightarrow> Inl ValueError)"

text \<open>\<^verbatim>\<open>df[c] = xs\<close>: replaces the column in place, or appends a new one.\<close>

definition setitem :: "'a frame \<Rightarrow> string \<Rightarrow> 'a cell list \<Rightarrow> 'a frame" where
  "setitem df c xs =
    (if c \<in> set (columns df) then map (\<lambda>p. if fst p = c then (c, xs) else p) df
     else df @ [(c, xs)])"

definition rename :: "(string \<times> string) list \<Rightarrow> 'a frame \<Rightarrow> 'a frame" where
  "rename m df = map (\<lambda>p. (case map_of m (fst p) of Some c' \<Rightarrow> c' | None \<Rightarrow> fst p, snd p)) df"

text \<open>
  \<^verbatim>\<open>df[[k1, ..., kn]]\<close>: for each key in turn, every column that carries it;
  \<^verbatim>\<open>KeyError\<close> for a key that no column carries.
\<close>

definition select :: "'a frame \<Rightarrow> string list \<Rightarrow> 'c error + 'a frame" where
  "select df keys =
    (case filter (\<lambda>k. k \<notin> set (columns df)) keys of
       [] \<Rightarrow> Inr (concat (map (\<lambda>k. filter (\<lambda>p. fst p = k) df) keys))
     | k # _ \<Rightarrow> Inl (KeyError k))"

text \<open>Sequencing of steps that may raise: the first exception wins.\<close>

definition ebind :: "'e + 'a \<Rightarrow> ('a \<Rightarrow> 'e + 'b) \<Rightarrow> 'e + 'b" where
  "ebind m f = (case m of Inl e \<Rightarrow> Inl e | Inr x \<Rightarrow> f x)"

fun collect :: "('e + 'a) list \<Rightarrow> 'e + 'a list" where
  "collect [] = Inr []"
| "collect (Inl e # _) = Inl e"
| "collect (Inr x # ms) = ebind (collect ms) (\<lambda>xs. Inr (x # xs))"

text \<open>
  The operations on cells. A string operand makes Python raise \<^verbatim>\<open>TypeError\<close>; the
  missing value propagates through \<open>-\<close> and compares false.
\<close>

fun sub_cell :: "'a::minus cell \<Rightarrow> 'a cell \<Rightarrow> 'c error + 'a cell" where
  "sub_cell (Num a) (Num b) = Inr (Num (a - b))"
| "sub_cell (Str _) _ = Inl TypeError"
| "sub_cell _ (Str _) = Inl TypeError"
| "sub_cell _ _ = Inr NaN"

fun gt_cell :: "'a::ord cell \<Rightarrow> 'a \<Rightarrow> 'c error + bool" where
  "gt_cell (Num a) t = Inr (a > t)"
| "gt_cell NaN _ = Inr False"
| "gt_cell (Str _) _ = Inl TypeError"

fun ge_cell :: "'a::ord cell \<Rightarrow> 'a \<Rightarrow> 'c error + bool" where
  "ge_cell (Num a) t = Inr (a \<ge> t)"
| "ge_cell NaN _ = Inr False"
| "ge_cell (Str _) _ = Inl TypeError"

text \<open>\<^verbatim>\<open>.astype(int)\<close> on a truth value.\<close>

definition astype_int :: "bool \<Rightarrow> 'a::{zero,one} cell" where
  "astype_int b = Num (if b then 1 else 0)"

text \<open>
  Operations on whole columns. Both operands of the source's subtraction come from one
  table and so share its index; the operation is positional.
\<close>

definition series_sub :: "'a::minus cell list \<Rightarrow> 'a cell list \<Rightarrow> 'c error + 'a cell list" where
  "series_sub xs ys = collect (map (\<lambda>(x, y). sub_cell x y) (zip xs ys))"

definition series_gt :: "'a::ord cell list \<Rightarrow> 'a \<Rightarrow> 'c error + bool list" where
  "series_gt xs t = collect (map (\<lambda>x. gt_cell x t) xs)"

definition series_ge :: "'a::ord cell list \<Rightarrow> 'a \<Rightarrow> 'c error + bool list" where
  "series_ge xs t = collect (map (\<lambda>x. ge_cell x t) xs)"

subsection \<open>The derived columns\<close>

text \<open>The names are the bytes of their UTF-8 encoding, as they are written to the files.\<close>

definition TR_DAYS :: "(int \<times> string) list" where
  "TR_DAYS =
    [(0, ''Pazartesi''),
     (1, ''Sal'' @ [CHR 0xC4, CHR 0xB1]),
     (2, [CHR 0xC3, CHR 0x87] @ ''ar'' @ [CHR 0xC5, CHR 0x9F] @ ''amba''),
     (3, ''Per'' @ [CHR 0xC5, CHR 0x9F] @ ''embe''),
     (4, ''Cuma''),
     (5, ''Cumartesi''),
     (6, ''Pazar'')]"

text \<open>
  \<^verbatim>\<open>dd.dt.weekday.map(TR_DAYS)\<close> on one element: a date that did not parse has no weekday
  and maps to the missing value, and so would a weekday outside the table.
\<close>

definition day_name :: "date option \<Rightarrow> 'a cell" where
  "day_name dd =
    (case dd of
       None \<Rightarrow> NaN
     | Some d \<Rightarrow> (case map_of TR_DAYS (weekday d) of None \<Rightarrow> NaN | Some s \<Rightarrow> Str s))"

text \<open>
  What the code uses of pandas and cannot be read off the source: the parser of the body
  (\<open>None\<close> when it raises), the parser of one date under \<^verbatim>\<open>errors="coerce"\<close> (\<open>None\<close> is
  \<^verbatim>\<open>NaT\<close>), and the serialiser of \<^verbatim>\<open>to_csv(index=False)\<close>. The variant in
  \<^verbatim>\<open>src/full_pipeline.py\<close> takes the module as the argument \<^verbatim>\<open>pd\<close> in the same way.
\<close>

record ('a, 'c) pandas =
  read_csv :: "'c list \<Rightarrow> 'a frame option"
  to_datetime :: "'a cell \<Rightarrow> date option"
  to_csv :: "'a frame \<Rightarrow> string"

definition need :: "string set" where
  "need = {''datetime'', ''temp'', ''tempmin'', ''tempmax'', ''precip''}"

definition renaming :: "(string \<times> string) list" where
  "renaming =
    [(''datetime'', ''date''), (''temp'', ''tavg''), (''tempmin'', ''tmin''),
     (''tempmax'', ''tmax''), (''precip'', ''prcp'')]"

definition canonical :: "string list" where
  "canonical =
    [''date'', ''tavg'', ''tmin'', ''tmax'', ''prcp'', ''temp_range'', ''day'',
     ''is_rainy'', ''is_hot'']"

text \<open>
  The part of \<^verbatim>\<open>fetch_days_csv\<close> after the status check, the same in the three variants
  (lines 60 to 81 of \<^verbatim>\<open>src/workflows/full_pipeline.py\<close>): from the columns check to the
  selection of the nine columns.
\<close>

definition derive :: "('a, 'c) pandas \<Rightarrow> 'a::{minus,ord,zero,one} \<Rightarrow> 'a frame \<Rightarrow> 'c error + 'a frame" where
  "derive pd hot_threshold df0 =
    (let miss = need - set (columns df0)
     in if miss \<noteq> {} then Inl (SchemaError miss (columns df0))
        else
         (let df = rename renaming df0
          in ebind (getitem df ''date'') (\<lambda>dates.
             let dd = map (to_datetime pd) dates;
                 df = setitem df ''day'' (map day_name dd)
             in ebind (getitem df ''tmax'') (\<lambda>tmax.
                ebind (getitem df ''tmin'') (\<lambda>tmin.
                ebind (series_sub tmax tmin) (\<lambda>temp_range.
                let df = setitem df ''temp_range'' temp_range
                in ebind (getitem df ''prcp'') (\<lambda>prcp.
                   ebind (series_gt prcp 0) (\<lambda>rainy.
                   let df = setitem df ''is_rainy'' (map astype_int rainy)
                   in ebind (getitem df ''tmax'') (\<lambda>tmax'.
                      ebind (series_ge tmax' hot_threshold) (\<lambda>hot.
                      let df = setitem df ''is_hot'' (map astype_int hot)
                      in select df canonical))))))))))"

definition parse_and_derive ::
  "('a, 'c) pandas \<Rightarrow> 'a::{minus,ord,zero,one} \<Rightarrow> 'c list \<Rightarrow> 'c error + 'a frame" where
  "parse_and_derive pd hot_threshold body =
    (case read_csv pd body of
       None \<Rightarrow> Inl ReadCsvError
     | Some df \<Rightarrow> derive pd hot_threshold df)"

text \<open>\<^verbatim>\<open>fetch_days_csv\<close> of \<^verbatim>\<open>src/workflows/full_pipeline.py\<close>, through the session.\<close>

definition fetch_days_csv ::
  "('a, 'c) pandas \<Rightarrow> 'a::{minus,ord,zero,one} \<Rightarrow> session \<Rightarrow> (nat \<Rightarrow> 'c response)
     \<Rightarrow> 'c error + 'a frame" where
  "fetch_days_csv pd hot_threshold sess server =
    ebind (sess_get sess server) (\<lambda>r.
      if raises_for_status r
      then (let preview = (if response_text r \<noteq> [] then take 400 (response_text r) else [])
            in Inl (HttpError (status_code r) preview))
      else parse_and_derive pd hot_threshold (response_text r))"

text \<open>
  \<^verbatim>\<open>fetch_days_csv\<close> of \<^verbatim>\<open>src/fetch_weather_csv.py\<close> and \<^verbatim>\<open>_fetch_days_csv\<close> of
  \<^verbatim>\<open>src/full_pipeline.py\<close>: no session; the status and a preview go to the error stream
  and the exception of \<^verbatim>\<open>requests\<close> is raised again.
\<close>

definition fetch_days_csv_plain ::
  "('a, 'c) pandas \<Rightarrow> 'a::{minus,ord,zero,one} \<Rightarrow> (nat \<Rightarrow> 'c response) \<Rightarrow> 'c error + 'a frame" where
  "fetch_days_csv_plain pd hot_threshold server =
    ebind (requests_get server) (\<lambda>r.
      if raises_for_status r
      then Inl (RequestsHTTPError (status_code r) (response_text r))
      else parse_and_derive pd hot_threshold (response_text r))"

subsection \<open>Files and the command line\<close>

text \<open>
  The regular files of the host, by path. What can go wrong when a file is written is a
  parameter: nothing, the \<^verbatim>\<open>open\<close> fails (the file is left as it was), or the file is
  opened, which empties it, and only the first \<open>k\<close> characters reach it.
\<close>

type_synonym files = "string \<rightharpoonup> string"

datatype fault = NoFault | OpenFails | WriteFails nat

text \<open>What the timeline endpoint is asked for; the URL is made of these five values.\<close>

record request =
  req_location :: string
  req_start :: date
  req_end :: date
  req_unit :: string
  req_key :: string

text \<open>
  The host: the environment variable \<^verbatim>\<open>VISUAL_CROSSING_API_KEY\<close> (empty when unset), the
  clock and the time-zone database, whether \<^verbatim>\<open>os.makedirs(path, exist_ok=True)\<close> succeeds,
  the fault of writing each path, and the replies of the server to each request.
\<close>

record 'c host =
  getenv_api_key :: string
  time_now :: int
  tzdata :: "string \<Rightarrow> tzinfo option"
  makedirs_ok :: "string \<Rightarrow> bool"
  write_fault :: "string \<Rightarrow> fault"
  web :: "request \<Rightarrow> nat \<Rightarrow> 'c response"

text \<open>\<^verbatim>\<open>os.path.join(a, b)\<close> on a POSIX host.\<close>

definition path_join :: "string \<Rightarrow> string \<Rightarrow> string" where
  "path_join a b =
    (if take 1 b = ''/'' then b
     else if a = [] \<or> last a = CHR ''/'' then a @ b
     else a @ ''/'' @ b)"

text \<open>
  \<^verbatim>\<open>df.to_csv(path, ...)\<close> and \<^verbatim>\<open>with open(path, "w") as f: f.write(data)\<close>: the file is
  written and closed, and a failure raises.
\<close>

definition write_text :: "'c host \<Rightarrow> files \<Rightarrow> string \<Rightarrow> string \<Rightarrow> ('c error + unit) \<times> files" where
  "write_text h fs path data =
    (case write_fault h path of
       NoFault \<Rightarrow> (Inr (), fs(path \<mapsto> data))
     | OpenFails \<Rightarrow> (Inl (OSError path), fs)
     | WriteFails k \<Rightarrow> (Inl (OSError path), fs(path \<mapsto> take k data)))"

text \<open>
  \<^verbatim>\<open>open(path, "w").write(data)\<close> of \<^verbatim>\<open>write_placeholder\<close>: the file object is dropped
  without \<^verbatim>\<open>close()\<close>. The short text stays in the buffer until the interpreter
  finalises the object, and an error of that flush is discarded there, not raised: only a
  failing \<^verbatim>\<open>open\<close> raises.
\<close>

definition write_unclosed :: "'c host \<Rightarrow> files \<Rightarrow> string \<Rightarrow> string \<Rightarrow> ('c error + unit) \<times> files" where
  "write_unclosed h fs path data =
    (case write_fault h path of
       NoFault \<Rightarrow> (Inr (), fs(path \<mapsto> data))
     | OpenFails \<Rightarrow> (Inl (OSError path), fs)
     | WriteFails k \<Rightarrow> (Inr (), fs(path \<mapsto> take k data)))"

definition newline :: char where
  "newline = CHR 0x0A"

definition header :: string where
  "header = ''date,tavg,tmin,tmax,prcp,temp_range,day,is_rainy,is_hot'' @ [newline]"

definition write_placeholder :: "'c host \<Rightarrow> files \<Rightarrow> string \<Rightarrow> ('c error + unit) \<times> files" where
  "write_placeholder h fs outdir =
    (if \<not> makedirs_ok h outdir then (Inl (OSError outdir), fs)
     else (case write_unclosed h fs (path_join outdir ''yarin.csv'') header of
             (Inl e, fs') \<Rightarrow> (Inl e, fs')
           | (Inr _, fs') \<Rightarrow> write_unclosed h fs' (path_join outdir ''week.csv'') header))"

text \<open>The fields of a line of a CSV file.\<close>

fun join_with :: "string \<Rightarrow> string list \<Rightarrow> string" where
  "join_with sep [] = []"
| "join_with sep [x] = x"
| "join_with sep (x # y # ys) = x @ sep @ join_with sep (y # ys)"

text \<open>The parsed command line (\<^verbatim>\<open>parse_args\<close> itself is outside the model).\<close>

record 'a args =
  arg_outdir :: string
  arg_location :: string
  arg_unit :: string
  arg_hot_threshold :: 'a
  arg_tz :: string
  arg_no_placeholder :: bool

definition request_of :: "'a args \<Rightarrow> string \<Rightarrow> date \<Rightarrow> date \<Rightarrow> request" where
  "request_of a api_key start end' =
    \<lparr>req_location = arg_location a, req_start = start, req_end = end',
     req_unit = arg_unit a, req_key = api_key\<rparr>"

text \<open>
  \<^verbatim>\<open>run_cli\<close> of \<^verbatim>\<open>src/workflows/full_pipeline.py\<close>: the exit status or the exception,
  and the files afterwards. \<^verbatim>\<open>sys.exit(1)\<close> is \<open>SystemExit 1\<close>. The closing preview of
  the two files only prints, inside \<^verbatim>\<open>try ... except Exception: pass\<close>, and is left out.
\<close>

definition run_cli ::
  "'c host \<Rightarrow> ('a::{minus,ord,zero,one}, 'c) pandas \<Rightarrow> 'a args \<Rightarrow> files
     \<Rightarrow> ('c error + int) \<times> files" where
  "run_cli h pd a fs =
    (let api_key = getenv_api_key h
     in if api_key = [] then
          (if arg_no_placeholder a then (Inl (SystemExit 1), fs)
           else if \<not> makedirs_ok h (arg_outdir a) then (Inl (OSError (arg_outdir a)), fs)
           else (case write_placeholder h fs (arg_outdir a) of
                   (Inl e, fs') \<Rightarrow> (Inl e, fs')
                 | (Inr _, fs') \<Rightarrow> (Inr 0, fs')))
        else
          (let sess = session_with_retry 4 (1 / 2) 30
           in case compute_dates (tzdata h) (time_now h) (arg_tz a) of
                Inl e \<Rightarrow> (Inl e, fs)
              | Inr (tmrw, wend) \<Rightarrow>
                 if \<not> makedirs_ok h (arg_outdir a) then (Inl (OSError (arg_outdir a)), fs)
                 else
                  (case fetch_days_csv pd (arg_hot_threshold a) sess
                          (web h (request_of a api_key tmrw tmrw)) of
                     Inl e \<Rightarrow> (Inl e, fs)
                   | Inr df_t \<Rightarrow>
                      (case write_text h fs (path_join (arg_outdir a) ''yarin.csv'') (to_csv pd df_t) of
                         (Inl e, fs1) \<Rightarrow> (Inl e, fs1)
                       | (Inr _, fs1) \<Rightarrow>
                          (case fetch_days_csv pd (arg_hot_threshold a) sess
                                  (web h (request_of a api_key tmrw wend)) of
                             Inl e \<Rightarrow> (Inl e, fs1)
                           | Inr df_w \<Rightarrow>
                              (case write_text h fs1 (path_join (arg_outdir a) ''week.csv'')
                                      (to_csv pd df_w) of
                                 (Inl e, fs2) \<Rightarrow> (Inl e, fs2)
                               | (Inr _, fs2) \<Rightarrow> (Inr 0, fs2)))))))"

subsection \<open>Notions used to state the results\<close>

text \<open>The label a column carries after \<^verbatim>\<open>rename\<close>.\<close>

definition ren :: "string \<Rightarrow> string" where
  "ren k = (case map_of renaming k of Some c' \<Rightarrow> c' | None \<Rightarrow> k)"

text \<open>The column under a label that occurs once.\<close>

definition col :: "'a frame \<Rightarrow> string \<Rightarrow> 'a cell list" where
  "col df c = hd (labelled df c)"

text \<open>
  The table the transform returns, from the columns of the parsed table and the three
  computed columns: the temperature range and the two truth columns before \<^verbatim>\<open>astype\<close>.
\<close>

definition derived :: "('a, 'c) pandas \<Rightarrow> 'a frame \<Rightarrow> 'a::{minus,ord,zero,one} cell list \<Rightarrow> bool list \<Rightarrow> bool list \<Rightarrow> 'a frame" where
  "derived pd df0 T R H =
     (''date'', col df0 ''datetime'') #
     map (Pair ''tavg'') (map snd (filter (\<lambda>p. fst p = ''temp'' \<or> fst p = ''tavg'') df0)) @
     [(''tmin'', col df0 ''tempmin''), (''tmax'', col df0 ''tempmax''),
      (''prcp'', col df0 ''precip''), (''temp_range'', T),
      (''day'', map day_name (map (to_datetime pd) (col df0 ''datetime''))),
      (''is_rainy'', map astype_int R), (''is_hot'', map astype_int H)]"

text \<open>
  The statuses the session retries on, and the retry objects that differ from the default
  one in \<^verbatim>\<open>total\<close> and in the history only.
\<close>

definition forced :: "int \<Rightarrow> bool" where
  "forced s \<longleftrightarrow> s \<in> {429, 500, 502, 503, 504}"

definition standard :: "retry \<Rightarrow> bool" where
  "standard r \<longleftrightarrow> retry_read r = 4 \<and> retry_connect r = 4 \<and>
     status_forcelist r = [429, 500, 502, 503, 504] \<and> allowed_methods r = [''GET'']"


text \<open>
  An outcome that raises nothing but exceptions of the given kind, and the exceptions of
  the table operations.
\<close>

definition raises_only :: "('e \<Rightarrow> bool) \<Rightarrow> 'e + 'a \<Rightarrow> bool" where
  "raises_only P m = (case m of Inl e \<Rightarrow> P e | Inr _ \<Rightarrow> True)"

definition lookup_error :: "'c error \<Rightarrow> bool" where
  "lookup_error e = (case e of ValueError \<Rightarrow> True | TypeError \<Rightarrow> True | KeyError _ \<Rightarrow> True | _ \<Rightarrow> False)"

subsection \<open>Sample data\<close>

text \<open>
  An instance of the pandas parameters for the examples. Its date parser is pandas on ISO
  calendar dates (\<^verbatim>\<open>YYYY-MM-DD\<close>, the format of the timeline endpoint); every other cell
  is taken not to parse.
\<close>

definition days_in_month :: "int \<Rightarrow> int \<Rightarrow> int" where
  "days_in_month y m = (if m = 2 \<and> is_leap y then 29 else DAYS_IN_MONTH ! nat m)"

definition digit_val :: "char \<Rightarrow> int option" where
  "digit_val c =
    (let n = (of_char c :: nat) in if 48 \<le> n \<and> n \<le> 57 then Some (int n - 48) else None)"

fun digits :: "string \<Rightarrow> int \<Rightarrow> int option" where
  "digits [] acc = Some acc"
| "digits (c # cs) acc =
     (case digit_val c of None \<Rightarrow> None | Some d \<Rightarrow> digits cs (10 * acc + d))"

definition iso_date :: "string \<Rightarrow> date option" where
  "iso_date s =
    (if length s = 10 \<and> s ! 4 = CHR ''-'' \<and> s ! 7 = CHR ''-''
     then (case (digits (take 4 s) 0, digits (take 2 (drop 5 s)) 0, digits (drop 8 s) 0) of
             (Some y, Some m, Some d) \<Rightarrow>
               if 1 \<le> y \<and> 1 \<le> m \<and> m \<le> 12 \<and> 1 \<le> d \<and> d \<le> days_in_month y m
               then Some \<lparr>year = y, month = m, day = d\<rparr> else None
           | _ \<Rightarrow> None)
     else None)"

definition to_datetime_iso :: "'a cell \<Rightarrow> date option" where
  "to_datetime_iso c = (case c of Str s \<Rightarrow> iso_date s | _ \<Rightarrow> None)"

text \<open>
  A parsed table of three days: the second has a maximum below its minimum, the third a
  date that does not parse and missing values. \<open>sample_out\<close> is what the transform makes
  of it with the threshold 30.
\<close>

definition sample_frame :: "int frame" where
  "sample_frame =
    [(''datetime'', [Str ''2024-06-11'', Str ''2024-06-12'', Str ''not a date'']),
     (''temp'', [Num 18, Num 7, Num 7]),
     (''tempmin'', [Num 12, Num 9, NaN]),
     (''tempmax'', [Num 30, Num 5, Num 8]),
     (''precip'', [Num 0, Num 2, NaN])]"

definition sample_out :: "int frame" where
  "sample_out =
    [(''date'', [Str ''2024-06-11'', Str ''2024-06-12'', Str ''not a date'']),
     (''tavg'', [Num 18, Num 7, Num 7]),
     (''tmin'', [Num 12, Num 9, NaN]),
     (''tmax'', [Num 30, Num 5, Num 8]),
     (''prcp'', [Num 0, Num 2, NaN]),
     (''temp_range'', [Num 18, Num (- 4), NaN]),
     (''day'', [Str (''Sal'' @ [CHR 0xC4, CHR 0xB1]),
                Str ([CHR 0xC3, CHR 0x87] @ ''ar'' @ [CHR 0xC5, CHR 0x9F] @ ''amba''), NaN]),
     (''is_rainy'', [Num 0, Num 1, Num 0]),
     (''is_hot'', [Num 1, Num 0, Num 0])]"

text \<open>A parsed table that already has a column labelled \<open>tavg\<close>, and its transform.\<close>

definition frame_tavg :: "int frame" where
  "frame_tavg =
    [(''datetime'', [Str ''2024-06-11'']), (''temp'', [Num 18]), (''tempmin'', [Num 12]),
     (''tempmax'', [Num 30]), (''precip'', [Num 0]), (''tavg'', [Num 17])]"


text \<open>A parsed table without the column \<open>temp\<close>.\<close>

definition frame_no_temp :: "int frame" where
  "frame_no_temp =
    [(''datetime'', [Str ''2024-06-11'']), (''tempmin'', [Num 12]), (''tempmax'', [Num 30]),
     (''precip'', [Num 0])]"

text \<open>A reply without a \<^verbatim>\<open>Retry-After\<close> header.\<close>

definition reply :: "int \<Rightarrow> 'c list \<Rightarrow> 'c response" where
  "reply status body = \<lparr>status_code = status, has_retry_after = False, response_text = body\<rparr>"

text \<open>
  Mocked servers: one that answers 503 to the first \<open>n\<close> requests and 200 with a body
  from then on, and one that always gives the same reply.
\<close>

definition server_503s :: "nat \<Rightarrow> 'c list \<Rightarrow> nat \<Rightarrow> 'c response" where
  "server_503s n body k = (if k < n then reply 503 [] else reply 200 body)"

definition always :: "'c response \<Rightarrow> nat \<Rightarrow> 'c response" where
  "always r k = r"

text \<open>
  The scenario of the specification: the replies for the day 2024-06-11 and for the week
  from 2024-06-11 to 2024-06-17, the tables pandas parses them to, what the transform
  makes of these with the threshold 30, and the text \<^verbatim>\<open>to_csv\<close> writes for the results.
\<close>

definition frame_day :: "int frame" where
  "frame_day =
    [(''datetime'', [Str ''2024-06-11'']),
     (''temp'', [Num 18]),
     (''tempmin'', [Num 12]),
     (''tempmax'', [Num 30]),
     (''precip'', [Num 0])]"

definition out_day :: "int frame" where
  "out_day =
    [(''date'',
       [Str ''2024-06-11'']),
     (''tavg'',
       [Num 18]),
     (''tmin'',
       [Num 12]),
     (''tmax'',
       [Num 30]),
     (''prcp'',
       [Num 0]),
     (''temp_range'',
       [Num 18]),
     (''day'',
       [Str (''Sal'' @ [CHR 0xC4, CHR 0xB1])]),
     (''is_rainy'',
       [Num 0]),
     (''is_hot'',
       [Num 1])]"

definition frame_week :: "int frame" where
  "frame_week =
    [(''datetime'', [Str ''2024-06-11'', Str ''2024-06-12'', Str ''2024-06-13'', Str ''2024-06-14'', Str ''2024-06-15'', Str ''2024-06-16'', Str ''2024-06-17'']),
     (''temp'', [Num 18, Num 17, Num 16, Num 15, Num 19, Num 22, Num 20]),
     (''tempmin'', [Num 12, Num 11, Num 12, Num 10, Num 13, Num 14, Num 13]),
     (''tempmax'', [Num 30, Num 24, Num 21, Num 20, Num 26, Num 31, Num 28]),
     (''precip'', [Num 0, Num 0, Num 3, Num 0, Num 0, Num 0, Num 1])]"

definition out_week :: "int frame" where
  "out_week =
    [(''date'',
       [Str ''2024-06-11'', Str ''2024-06-12'', Str ''2024-06-13'', Str ''2024-06-14'', Str ''2024-06-15'', Str ''2024-06-16'', Str ''2024-06-17'']),
     (''tavg'',
       [Num 18, Num 17, Num 16, Num 15, Num 19, Num 22, Num 20]),
     (''tmin'',
       [Num 12, Num 11, Num 12, Num 10, Num 13, Num 14, Num 13]),
     (''tmax'',
       [Num 30, Num 24, Num 21, Num 20, Num 26, Num 31, Num 28]),
     (''prcp'',
       [Num 0, Num 0, Num 3, Num 0, Num 0, Num 0, Num 1]),
     (''temp_range'',
       [Num 18, Num 13, Num 9, Num 10, Num 13, Num 17, Num 15]),
     (''day'',
       [Str (''Sal'' @ [CHR 0xC4, CHR 0xB1]), Str ([CHR 0xC3, CHR 0x87] @ ''ar'' @ [CHR 0xC5, CHR 0x9F] @ ''amba''), Str (''Per'' @ [CHR 0xC5, CHR 0x9F] @ ''embe''), Str ''Cuma'', Str ''Cumartesi'', Str ''Pazar'', Str ''Pazartesi'']),
     (''is_rainy'',
       [Num 0, Num 0, Num 1, Num 0, Num 0, Num 0, Num 1]),
     (''is_hot'',
       [Num 1, Num 0, Num 0, Num 0, Num 0, Num 1, Num 0])]"

definition body_day :: string where
  "body_day =
    ''datetime,temp,tempmin,tempmax,precip'' @ [newline] @
    ''2024-06-11,18,12,30,0'' @ [newline]"

definition body_week :: string where
  "body_week =
    ''datetime,temp,tempmin,tempmax,precip'' @ [newline] @
    ''2024-06-11,18,12,30,0'' @ [newline] @
    ''2024-06-12,17,11,24,0'' @ [newline] @
    ''2024-06-13,16,12,21,3'' @ [newline] @
    ''2024-06-14,15,10,20,0'' @ [newline] @
    ''2024-06-15,19,13,26,0'' @ [newline] @
    ''2024-06-16,22,14,31,0'' @ [newline] @
    ''2024-06-17,20,13,28,1'' @ [newline]"

definition csv_day :: string where
  "csv_day =
    header @
    ''2024-06-11,18,12,30,0,18,Sal'' @ [CHR 0xC4, CHR 0xB1] @ '',0,1'' @ [newline]"

definition csv_week :: string where
  "csv_week =
    header @
    ''2024-06-11,18,12,30,0,18,Sal'' @ [CHR 0xC4, CHR 0xB1] @ '',0,1'' @ [newline] @
    ''2024-06-12,17,11,24,0,13,'' @ [CHR 0xC3, CHR 0x87] @ ''ar'' @ [CHR 0xC5, CHR 0x9F] @ ''amba,0,0'' @ [newline] @
    ''2024-06-13,16,12,21,3,9,Per'' @ [CHR 0xC5, CHR 0x9F] @ ''embe,1,0'' @ [newline] @
    ''2024-06-14,15,10,20,0,10,Cuma,0,0'' @ [newline] @
    ''2024-06-15,19,13,26,0,13,Cumartesi,0,0'' @ [newline] @
    ''2024-06-16,22,14,31,0,17,Pazar,0,1'' @ [newline] @
    ''2024-06-17,20,13,28,1,15,Pazartesi,1,0'' @ [newline]"

definition to_csv_sample :: "int frame \<Rightarrow> string" where
  "to_csv_sample df =
    (if df = out_day then csv_day else if df = out_week then csv_week else [])"

text \<open>
  The bodies whose parse the tables above are, and the parser on them; on every other
  body the instance answers as pandas does on an empty one.
\<close>

definition body_sample :: string where
  "body_sample =
    ''datetime,temp,tempmin,tempmax,precip'' @ [newline] @
    ''2024-06-11,18,12,30,0'' @ [newline] @
    ''2024-06-12,7,9,5,2'' @ [newline] @
    ''not a date,7,,8,'' @ [newline]"

definition body_no_temp :: string where
  "body_no_temp =
    ''datetime,tempmin,tempmax,precip'' @ [newline] @ ''2024-06-11,12,30,0'' @ [newline]"

definition body_tavg :: string where
  "body_tavg =
    ''datetime,temp,tempmin,tempmax,precip,tavg'' @ [newline] @
    ''2024-06-11,18,12,30,0,17'' @ [newline]"

definition read_csv_sample :: "string \<Rightarrow> int frame option" where
  "read_csv_sample body =
    (if body = body_sample then Some sample_frame
     else if body = body_no_temp then Some frame_no_temp
     else if body = body_tavg then Some frame_tavg
     else if body = body_day then Some frame_day
     else if body = body_week then Some frame_week
     else None)"

definition pd_sample :: "(int, char) pandas" where
  "pd_sample =
    \<lparr>read_csv = read_csv_sample, to_datetime = to_datetime_iso, to_csv = to_csv_sample\<rparr>"

text \<open>
  The host of the scenario: a key is set, the clock reads 2024-06-10 10:00 in Los Angeles,
  nothing fails, and the server answers a request for one day with \<open>body_day\<close> and any
  other with \<open>body_week\<close>. Then the command line of the scenario, and two variations of
  the host: no key, and a disk that takes only the first 100 characters of
  \<^verbatim>\<open>week.csv\<close>.
\<close>

definition web_sample :: "request \<Rightarrow> nat \<Rightarrow> char response" where
  "web_sample rq k = (if req_start rq = req_end rq then reply 200 body_day else reply 200 body_week)"

definition no_faults :: "string \<Rightarrow> fault" where
  "no_faults path = NoFault"

definition week_cut :: "string \<Rightarrow> fault" where
  "week_cut path = (if path = ''crime_prediction_data/week.csv'' then WriteFails 100 else NoFault)"

definition any_dir :: "string \<Rightarrow> bool" where
  "any_dir path = True"

definition host_sample :: "char host" where
  "host_sample =
    \<lparr>getenv_api_key = ''secret'', time_now = 1718038800, tzdata = zoneinfo_2024,
     makedirs_ok = any_dir, write_fault = no_faults, web = web_sample\<rparr>"

definition host_no_key :: "char host" where
  "host_no_key = host_sample\<lparr>getenv_api_key := []\<rparr>"

definition host_week_cut :: "char host" where
  "host_week_cut = host_sample\<lparr>write_fault := week_cut\<rparr>"

definition args_sample :: "int args" where
  "args_sample =
    \<lparr>arg_outdir = ''crime_prediction_data'', arg_location = ''San Francisco,CA'',
     arg_unit = ''metric'', arg_hot_threshold = 30, arg_tz = ''America/Los_Angeles'',
     arg_no_placeholder = False\<rparr>"

section \<open>Properties\<close>

subsection \<open>The calendar conversions are inverse\<close>

lemma DI_simps: "DI400Y = 146097" "DI100Y = 36524" "DI4Y = 1461"
  by (simp_all add: DI400Y_def DI100Y_def DI4Y_def days_before_year_def)

lemma div_decomp: "0 \<le> r \<Longrightarrow> r < k \<Longrightarrow> (k * q + r) div k = (q::int)"
  by (rule int_div_pos_eq[where r = r]) auto

lemma mod_decomp: "0 \<le> r \<Longrightarrow> r < k \<Longrightarrow> (k * q + r) mod k = (r::int)"
  by (rule int_mod_pos_eq[where q = q]) auto

lemma days_before_year_decomp:
  assumes "0 \<le> a" "a \<le> 3" "0 \<le> b" "b \<le> 24" "0 \<le> c" "c \<le> 3"
  shows "days_before_year (400 * q + 100 * a + 4 * b + c + 1) =
         146097 * q + 36524 * a + 1461 * b + 365 * c"
proof -
  let ?y = "400 * q + 100 * a + 4 * b + c"
  have d4: "?y div 4 = 100 * q + 25 * a + b"
    using div_decomp[of c 4 "100 * q + 25 * a + b"] assms by (simp add: algebra_simps)
  have d100: "?y div 100 = 4 * q + a"
    using div_decomp[of "4 * b + c" 100 "4 * q + a"] assms by (simp add: algebra_simps)
  have d400: "?y div 400 = q"
    using div_decomp[of "100 * a + 4 * b + c" 400 q] assms by (simp add: algebra_simps)
  show ?thesis
    unfolding days_before_year_def Let_def using d4 d100 d400 by simp
qed

lemma is_leap_decomp:
  assumes "0 \<le> a" "a \<le> 3" "0 \<le> b" "b \<le> 24" "0 \<le> c" "c \<le> 3"
  shows "is_leap (400 * q + 100 * a + 4 * b + c + 1) \<longleftrightarrow> c = 3 \<and> (b \<noteq> 24 \<or> a = 3)"
proof -
  let ?y = "400 * q + 100 * a + 4 * b + c + 1"
  show ?thesis
  proof (cases "c = 3")
    case False
    then have "?y mod 4 = c + 1"
      using mod_decomp[of "c + 1" 4 "100 * q + 25 * a + b"] assms by (simp add: algebra_simps)
    then show ?thesis using False assms by (simp add: is_leap_def)
  next
    case True
    have m4: "?y mod 4 = 0"
      using mod_decomp[of 0 4 "100 * q + 25 * a + b + 1"] True by (simp add: algebra_simps)
    show ?thesis
    proof (cases "b = 24")
      case b24: True
      have m100: "?y mod 100 = 0"
        using mod_decomp[of 0 100 "4 * q + a + 1"] True b24 by (simp add: algebra_simps)
      show ?thesis
      proof (cases "a = 3")
        case a3: True
        have "?y mod 400 = 0"
          using mod_decomp[of 0 400 "q + 1"] True b24 a3 by (simp add: algebra_simps)
        then show ?thesis using True b24 a3 m4 m100 by (simp add: is_leap_def)
      next
        case a3: False
        have "?y mod 400 = 100 * a + 100"
          using mod_decomp[of "100 * a + 100" 400 q] True b24 a3 assms
          by (simp add: algebra_simps)
        then show ?thesis using True b24 a3 m4 m100 assms by (simp add: is_leap_def)
      qed
    next
      case b24: False
      have "?y mod 100 = 4 * b + 4"
        using mod_decomp[of "4 * b + 4" 100 "4 * q + a"] True b24 assms
        by (simp add: algebra_simps)
      then show ?thesis using True b24 m4 assms by (simp add: is_leap_def)
    qed
  qed
qed

lemma month_day_table:
  "\<forall>n \<in> set [0..364]. \<forall>l \<in> set [False, True].
     (case month_day l n of (m, d) \<Rightarrow>
        DAYS_BEFORE_MONTH ! nat m + (if m > 2 \<and> l then 1 else 0) + d = n + 1)"
  by code_simp

lemma month_day_offset:
  assumes "0 \<le> n" "n \<le> 364" "month_day l n = (m, d)"
  shows "DAYS_BEFORE_MONTH ! nat m + (if m > 2 \<and> l then 1 else 0) + d = n + 1"
proof -
  have "n \<in> set [0..364]" unfolding set_upto using assms(1,2) by simp
  moreover have "l \<in> set [False, True]" by simp
  ultimately show ?thesis using month_day_table assms(3) by fastforce
qed

lemma ymd2ord_ord2ymd: "(case ord2ymd n of (y, m, d) \<Rightarrow> ymd2ord y m d) = n"
proof -
  define q where "q = (n - 1) div 146097"
  define r where "r = (n - 1) mod 146097"
  define a where "a = r div 36524"
  define r2 where "r2 = r mod 36524"
  define b where "b = r2 div 1461"
  define r3 where "r3 = r2 mod 1461"
  define c where "c = r3 div 365"
  define e where "e = r3 mod 365"
  have n: "n = 146097 * q + r + 1" and r: "0 \<le> r" "r < 146097"
    by (simp_all add: q_def r_def)
  have r_eq: "r = 36524 * a + r2" and r2: "0 \<le> r2" "r2 < 36524"
    by (simp_all add: a_def r2_def)
  have r2_eq: "r2 = 1461 * b + r3" and r3: "0 \<le> r3" "r3 < 1461"
    by (simp_all add: b_def r3_def)
  have r3_eq: "r3 = 365 * c + e" and e: "0 \<le> e" "e < 365"
    by (simp_all add: c_def e_def)
  have a: "0 \<le> a" "a \<le> 4" using r r_eq r2 by linarith+
  have b: "0 \<le> b" "b \<le> 24" using r2_eq r2 r3 by linarith+
  have c: "0 \<le> c" "c \<le> 4" using r3_eq r3 e by linarith+
  have unf: "ord2ymd n =
      (if c = 4 \<or> a = 4 then (400 * q + 1 + 100 * a + 4 * b + c - 1, 12, 31)
       else (case month_day (c = 3 \<and> (b \<noteq> 24 \<or> a = 3)) e of
               (m, d) \<Rightarrow> (400 * q + 1 + 100 * a + 4 * b + c, m, d)))"
    unfolding ord2ymd_def Let_def DI_simps
    by (simp add: q_def r_def a_def r2_def b_def r3_def c_def e_def mult.commute)
  show ?thesis
  proof (cases "a = 4")
    case True
    then have rv: "r = 146096" "r2 = 0" using r r_eq r2 by auto
    then have z: "b = 0" "c = 0" by (simp_all add: b_def c_def r3_def)
    have "days_before_year (400 * q + 100 * 3 + 4 * 24 + 3 + 1) =
          146097 * q + 36524 * 3 + 1461 * 24 + 365 * 3"
      by (rule days_before_year_decomp) auto
    moreover have "is_leap (400 * q + 100 * 3 + 4 * 24 + 3 + 1)"
      using is_leap_decomp[of 3 24 3 q] by simp
    ultimately show ?thesis
      unfolding unf using True z n rv(1)
      by (simp add: ymd2ord_def days_before_month_def DAYS_BEFORE_MONTH_def)
  next
    case a4: False
    then have a3: "a \<le> 3" using a by simp
    show ?thesis
    proof (cases "c = 4")
      case True
      then have r3v: "r3 = 1460" "e = 0" using r3 r3_eq e by auto
      have b23: "b \<noteq> 24" using r2_eq r2 r3v by auto
      have "days_before_year (400 * q + 100 * a + 4 * b + 3 + 1) =
            146097 * q + 36524 * a + 1461 * b + 365 * 3"
        using a a3 b by (intro days_before_year_decomp) auto
      moreover have "is_leap (400 * q + 100 * a + 4 * b + 3 + 1)"
        using is_leap_decomp[of a b 3 q] a a3 b b23 by simp
      ultimately show ?thesis
        unfolding unf using True a4 n r_eq r2_eq r3v
        by (simp add: ymd2ord_def days_before_month_def DAYS_BEFORE_MONTH_def)
    next
      case False
      then have c3: "c \<le> 3" using c by simp
      obtain m d where md: "month_day (c = 3 \<and> (b \<noteq> 24 \<or> a = 3)) e = (m, d)"
        by (cases "month_day (c = 3 \<and> (b \<noteq> 24 \<or> a = 3)) e")
      have lp: "is_leap (400 * q + 100 * a + 4 * b + c + 1) \<longleftrightarrow>
                c = 3 \<and> (b \<noteq> 24 \<or> a = 3)"
        using a a3 b c c3 by (intro is_leap_decomp) auto
      have dy: "days_before_year (400 * q + 100 * a + 4 * b + c + 1) =
                146097 * q + 36524 * a + 1461 * b + 365 * c"
        using a a3 b c c3 by (intro days_before_year_decomp) auto
      have "DAYS_BEFORE_MONTH ! nat m +
              (if m > 2 \<and> (c = 3 \<and> (b \<noteq> 24 \<or> a = 3)) then 1 else 0) + d = e + 1"
        using month_day_offset[OF _ _ md] e by simp
      then have "days_before_month (400 * q + 100 * a + 4 * b + c + 1) m + d = e + 1"
        unfolding days_before_month_def lp by simp
      then show ?thesis
        unfolding unf using False a4 md dy n r_eq r2_eq r3_eq
        by (simp add: ymd2ord_def algebra_simps)
    qed
  qed
qed

lemma toordinal_fromordinal: "toordinal (fromordinal n) = n"
  using ymd2ord_ord2ymd[of n]
  by (simp add: toordinal_def fromordinal_def split: prod.splits)

subsection \<open>The date window\<close>

lemma date_add_in_range:
  "0 < toordinal d + k \<Longrightarrow> toordinal d + k \<le> MAXORDINAL \<Longrightarrow>
   date_add d k = Inr (fromordinal (toordinal d + k))"
  by (simp add: date_add_def)

lemma compute_dates_in_range:
  assumes "zoneinfo tz_name = Some tz"
    and "0 < 719163 + now div 86400" "719163 + now div 86400 \<le> MAXORDINAL"
    and "0 < local_ordinal now tz" "local_ordinal now tz + 7 \<le> MAXORDINAL"
  shows "(now_date now tz :: 'c error + date) = Inr (fromordinal (local_ordinal now tz))"
    and "(compute_dates zoneinfo now tz_name :: 'c error + date \<times> date) =
           Inr (fromordinal (local_ordinal now tz + 1), fromordinal (local_ordinal now tz + 7))"
proof -
  let ?L = "local_ordinal now tz"
  show today: "(now_date now tz :: 'c error + date) = Inr (fromordinal ?L)"
    using assms by (simp add: now_date_def)
  have t: "date_add (fromordinal ?L) 1 = (Inr (fromordinal (?L + 1)) :: 'c error + date)"
    using assms by (simp add: date_add_def toordinal_fromordinal)
  have w: "date_add (fromordinal (?L + 1)) 6 = (Inr (fromordinal (?L + 7)) :: 'c error + date)"
    using assms by (simp add: date_add_def toordinal_fromordinal algebra_simps)
  show "(compute_dates zoneinfo now tz_name :: 'c error + date \<times> date) =
          Inr (fromordinal (?L + 1), fromordinal (?L + 7))"
    unfolding compute_dates_def using assms(1) today t w by simp
qed

lemma scenario_dates:
  "fromordinal 739047 = \<lparr>year = 2024, month = 6, day = 10\<rparr>"
  "fromordinal 739048 = \<lparr>year = 2024, month = 6, day = 11\<rparr>"
  "fromordinal 739054 = \<lparr>year = 2024, month = 6, day = 17\<rparr>"
  by (simp_all add: fromordinal_def ord2ymd_def month_day_def Let_def DI_simps
        DAYS_BEFORE_MONTH_def DAYS_IN_MONTH_def)

lemma scenario_local:
  "local_ordinal 1718038800 Los_Angeles_2024 = 739047"
  "(1718038800 + Los_Angeles_2024 1718038800) mod 86400 = 10 * 3600"
  by (simp_all add: local_ordinal_def Los_Angeles_2024_def)



subsection \<open>Tables\<close>

lemma labelled_Nil [simp]: "labelled [] c = []"
  by (simp add: labelled_def)

lemma labelled_Cons [simp]:
  "labelled (p # df) c = (if fst p = c then snd p # labelled df c else labelled df c)"
  by (simp add: labelled_def)

lemma labelled_append [simp]: "labelled (df @ df') c = labelled df c @ labelled df' c"
  by (simp add: labelled_def)

lemma labelled_empty_iff: "labelled df c = [] \<longleftrightarrow> c \<notin> set (columns df)"
  by (induction df) (auto simp: columns_def)

lemma labelled_distinct:
  "distinct (columns df) \<Longrightarrow> length (labelled df c) \<le> 1"
  by (induction df) (auto simp: columns_def labelled_empty_iff[unfolded columns_def])

lemma labelled_subset: "set (labelled df c) \<subseteq> snd ` set df"
  by (induction df) auto

lemma filter_label: "filter (\<lambda>p. fst p = k) df = map (Pair k) (labelled df k)"
  by (induction df) auto

lemma labelled_replace_other:
  "c' \<noteq> c \<Longrightarrow> labelled (map (\<lambda>p. if fst p = c then (c, xs) else p) df) c' = labelled df c'"
  by (induction df) auto

lemma labelled_setitem_other:
  "c' \<noteq> c \<Longrightarrow> labelled (setitem df c xs) c' = labelled df c'"
  by (simp add: setitem_def labelled_replace_other)

lemma labelled_setitem_same:
  "length (labelled df c) \<le> 1 \<Longrightarrow> labelled (setitem df c xs) c = [xs]"
proof (cases "c \<in> set (columns df)")
  case False
  then show ?thesis by (simp add: setitem_def labelled_empty_iff)
next
  case True
  have "labelled (map (\<lambda>p. if fst p = c then (c, xs) else p) df) c = map (\<lambda>_. xs) (labelled df c)"
    by (induction df) auto
  moreover assume "length (labelled df c) \<le> 1"
  moreover have "labelled df c \<noteq> []" using True by (simp add: labelled_empty_iff)
  ultimately show ?thesis using True
    by (cases "labelled df c") (auto simp: setitem_def)
qed

lemma columns_replace:
  "columns (map (\<lambda>p. if fst p = c then (c, xs) else p) df) = columns df"
  by (induction df) (auto simp: columns_def)

lemma columns_setitem:
  "columns (setitem df c xs) = (if c \<in> set (columns df) then columns df else columns df @ [c])"
  by (simp add: setitem_def columns_replace) (simp add: columns_def)

lemma labelled_rename:
  "labelled (rename renaming df) c = map snd (filter (\<lambda>p. ren (fst p) = c) df)"
  by (induction df) (auto simp: rename_def ren_def)

lemma ren_cases:
  "ren k = (if k = ''datetime'' then ''date'' else if k = ''temp'' then ''tavg''
            else if k = ''tempmin'' then ''tmin'' else if k = ''tempmax'' then ''tmax''
            else if k = ''precip'' then ''prcp'' else k)"
  by (simp add: ren_def renaming_def)

lemma getitem_iff: "getitem df c = Inr xs \<longleftrightarrow> labelled df c = [xs]"
  by (auto simp: getitem_def split: list.splits)

lemma getitem_dup: "2 \<le> length (labelled df c) \<Longrightarrow> getitem df c = Inl ValueError"
  by (auto simp: getitem_def split: list.splits)

lemma collect_Inr:
  "collect ms = Inr xs \<Longrightarrow> length xs = length ms \<and> (\<forall>i<length ms. ms ! i = Inr (xs ! i))"
proof (induction ms arbitrary: xs rule: collect.induct)
  case 1
  then show ?case by simp
next
  case (2 e uu)
  then show ?case by simp
next
  case (3 x ms)
  then obtain ys where ys: "collect ms = Inr ys" "xs = x # ys"
    by (auto simp: ebind_def split: sum.splits)
  with 3 show ?case by (auto simp: nth_Cons split: nat.splits)
qed

lemma ebind_simps [simp]: "ebind (Inl e) f = Inl e" "ebind (Inr x) f = f x"
  by (simp_all add: ebind_def)

lemma labelled_col:
  "distinct (columns df) \<Longrightarrow> c \<in> set (columns df) \<Longrightarrow> labelled df c = [col df c]"
  using labelled_distinct[of df c] labelled_empty_iff[of df c]
  by (cases "labelled df c") (auto simp: col_def)

lemma filter_or_absent:
  "b \<notin> set (columns df) \<Longrightarrow>
   filter (\<lambda>p. fst p = a \<or> fst p = b) df = filter (\<lambda>p. fst p = a) df"
  by (rule filter_cong) (auto simp: columns_def)

lemma filter_or_both:
  "a \<noteq> b \<Longrightarrow> a \<in> set (columns df) \<Longrightarrow> b \<in> set (columns df) \<Longrightarrow>
   2 \<le> length (filter (\<lambda>p. fst p = a \<or> fst p = b) df)"
proof (induction df)
  case Nil
  then show ?case by (simp add: columns_def)
next
  case (Cons p df)
  have pos: "\<And>c. c \<in> set (columns df) \<Longrightarrow> 1 \<le> length (filter (\<lambda>p. fst p = a \<or> fst p = c) df)"
    "\<And>c. c \<in> set (columns df) \<Longrightarrow> 1 \<le> length (filter (\<lambda>p. fst p = c \<or> fst p = b) df)"
    by (auto simp: columns_def Suc_le_eq length_pos_if_in_set filter_empty_conv)
  from Cons show ?case
    using pos(1)[of b] pos(2)[of a] by (auto simp: columns_def)
qed

lemma labelled_rename_pair:
  assumes "\<And>k. ren k = t \<longleftrightarrow> k = s \<or> k = t"
  shows "labelled (rename renaming df) t = map snd (filter (\<lambda>p. fst p = s \<or> fst p = t) df)"
  by (simp add: labelled_rename assms)

lemma labelled_rename_fixed:
  assumes "\<And>k. ren k = t \<longleftrightarrow> k = t"
  shows "labelled (rename renaming df) t = labelled df t"
  by (simp add: labelled_rename assms, simp add: labelled_def)

lemma ren_iffs:
  "ren k = ''date'' \<longleftrightarrow> k = ''datetime'' \<or> k = ''date''"
  "ren k = ''tavg'' \<longleftrightarrow> k = ''temp'' \<or> k = ''tavg''"
  "ren k = ''tmin'' \<longleftrightarrow> k = ''tempmin'' \<or> k = ''tmin''"
  "ren k = ''tmax'' \<longleftrightarrow> k = ''tempmax'' \<or> k = ''tmax''"
  "ren k = ''prcp'' \<longleftrightarrow> k = ''precip'' \<or> k = ''prcp''"
  "ren k = ''day'' \<longleftrightarrow> k = ''day''"
  "ren k = ''temp_range'' \<longleftrightarrow> k = ''temp_range''"
  "ren k = ''is_rainy'' \<longleftrightarrow> k = ''is_rainy''"
  "ren k = ''is_hot'' \<longleftrightarrow> k = ''is_hot''"
  by (auto simp: ren_cases)

text \<open>A renamed target label: one column when the target is not there already, two otherwise.\<close>

lemma renamed_target:
  assumes d: "distinct (columns df)" and s: "s \<in> set (columns df)" and st: "s \<noteq> t"
    and r: "\<And>k. ren k = t \<longleftrightarrow> k = s \<or> k = t"
  shows "t \<notin> set (columns df) \<Longrightarrow> labelled (rename renaming df) t = [col df s]"
    and "t \<in> set (columns df) \<Longrightarrow> 2 \<le> length (labelled (rename renaming df) t)"
proof -
  have eq: "labelled (rename renaming df) t = map snd (filter (\<lambda>p. fst p = s \<or> fst p = t) df)"
    by (rule labelled_rename_pair[OF r])
  show "labelled (rename renaming df) t = [col df s]" if "t \<notin> set (columns df)"
    using that labelled_col[OF d s] unfolding eq by (simp add: filter_or_absent labelled_def)
  show "2 \<le> length (labelled (rename renaming df) t)" if "t \<in> set (columns df)"
    using filter_or_both[OF st s that] by (simp add: eq)
qed

subsection \<open>The transform in closed form\<close>

lemma need_subset:
  "need - set (columns df) = {} \<longleftrightarrow>
     ''datetime'' \<in> set (columns df) \<and> ''temp'' \<in> set (columns df) \<and>
     ''tempmin'' \<in> set (columns df) \<and> ''tempmax'' \<in> set (columns df) \<and>
     ''precip'' \<in> set (columns df)"
  by (auto simp: need_def)

lemma select_canonical:
  assumes "\<And>k. k \<in> set canonical \<Longrightarrow> labelled df k \<noteq> []"
  shows "(select df canonical :: 'c error + 'a frame) =
         Inr (concat (map (\<lambda>k. map (Pair k) (labelled df k)) canonical))"
proof -
  have "filter (\<lambda>k. k \<notin> set (columns df)) canonical = []"
    using assms by (auto simp: filter_empty_conv labelled_empty_iff)
  then show ?thesis by (simp add: select_def filter_label)
qed

lemma derive_closed:
  fixes pd :: "('a::{minus,ord,zero,one}, 'c) pandas"
  assumes d: "distinct (columns df0)"
  shows "derive pd hot df0 =
    (if need - set (columns df0) \<noteq> {}
     then Inl (SchemaError (need - set (columns df0)) (columns df0))
     else if ''date'' \<in> set (columns df0) then Inl ValueError
     else if ''tmax'' \<in> set (columns df0) then Inl ValueError
     else if ''tmin'' \<in> set (columns df0) then Inl ValueError
     else ebind (series_sub (col df0 ''tempmax'') (col df0 ''tempmin'')) (\<lambda>T.
          if ''prcp'' \<in> set (columns df0) then Inl ValueError
          else ebind (series_gt (col df0 ''precip'') 0) (\<lambda>R.
               ebind (series_ge (col df0 ''tempmax'') hot) (\<lambda>H.
               Inr (derived pd df0 T R H)))))"
proof (cases "need - set (columns df0) = {}")
  case False
  then show ?thesis by (simp add: derive_def Let_def)
next
  case True
  then have "need \<subseteq> set (columns df0)" by simp
  then have n: "''datetime'' \<in> set (columns df0)" "''temp'' \<in> set (columns df0)"
    "''tempmin'' \<in> set (columns df0)" "''tempmax'' \<in> set (columns df0)"
    "''precip'' \<in> set (columns df0)"
    by (auto simp: need_def)
  let ?df1 = "rename renaming df0"
  note rt = renamed_target[OF d]
  note other = labelled_setitem_other
  have fixed: "length (labelled ?df1 ''day'') \<le> 1" "length (labelled ?df1 ''temp_range'') \<le> 1"
    "length (labelled ?df1 ''is_rainy'') \<le> 1" "length (labelled ?df1 ''is_hot'') \<le> 1"
    using labelled_distinct[OF d] by (simp_all add: labelled_rename_fixed ren_iffs)
  have tavg: "labelled ?df1 ''tavg'' = map snd (filter (\<lambda>p. fst p = ''temp'' \<or> fst p = ''tavg'') df0)"
    by (rule labelled_rename_pair) (rule ren_iffs)
  have tavg_ne: "labelled ?df1 ''tavg'' \<noteq> []"
    using n(2) unfolding tavg by (force simp: filter_empty_conv columns_def)
  have dup: "getitem df c = (Inl ValueError :: 'c error + 'a cell list)"
    if "2 \<le> length (labelled df c)" for df :: "'a frame" and c
    using that by (rule getitem_dup)
  have one: "getitem df c = (Inr xs :: 'c error + 'a cell list)"
    if "labelled df c = [xs]" for df :: "'a frame" and c xs
    using that by (simp add: getitem_iff)
  show ?thesis
  proof (cases "''date'' \<in> set (columns df0)")
    case True
    have "2 \<le> length (labelled ?df1 ''date'')"
      by (rule rt(2)[OF n(1) _ ren_iffs(1) True]) simp
    then show ?thesis using True \<open>need - set (columns df0) = {}\<close>
      by (simp add: derive_def Let_def dup)
  next
    case nodate: False
    have date: "labelled ?df1 ''date'' = [col df0 ''datetime'']"
      by (rule rt(1)[OF n(1) _ ren_iffs(1) nodate]) simp
    note g_date = one[OF date]
    show ?thesis
    proof (cases "''tmax'' \<in> set (columns df0)")
      case True
      have "2 \<le> length (labelled ?df1 ''tmax'')"
        by (rule rt(2)[OF n(4) _ ren_iffs(4) True]) simp
      then have "getitem (setitem ?df1 ''day'' D) ''tmax'' = (Inl ValueError :: 'c error + 'a cell list)" for D
        by (intro dup) (simp add: other)
      then show ?thesis using True nodate \<open>need - set (columns df0) = {}\<close>
        by (simp add: derive_def Let_def g_date)
    next
      case notmax: False
      have tmax: "labelled ?df1 ''tmax'' = [col df0 ''tempmax'']"
        by (rule rt(1)[OF n(4) _ ren_iffs(4) notmax]) simp
      have g_tmax: "getitem (setitem ?df1 ''day'' D) ''tmax'' = (Inr (col df0 ''tempmax'') :: 'c error + 'a cell list)" for D
        by (intro one) (simp add: other tmax)
      have g_tmax2: "getitem (setitem (setitem (setitem ?df1 ''day'' D) ''temp_range'' T) ''is_rainy'' R) ''tmax''
           = (Inr (col df0 ''tempmax'') :: 'c error + 'a cell list)" for D T R
        by (intro one) (simp add: other tmax)
      show ?thesis
      proof (cases "''tmin'' \<in> set (columns df0)")
        case True
        have "2 \<le> length (labelled ?df1 ''tmin'')"
          by (rule rt(2)[OF n(3) _ ren_iffs(3) True]) simp
        then have "getitem (setitem ?df1 ''day'' D) ''tmin'' = (Inl ValueError :: 'c error + 'a cell list)" for D
          by (intro dup) (simp add: other)
        then show ?thesis using True nodate notmax \<open>need - set (columns df0) = {}\<close>
          by (simp add: derive_def Let_def g_date g_tmax)
      next
        case notmin: False
        have tmin: "labelled ?df1 ''tmin'' = [col df0 ''tempmin'']"
          by (rule rt(1)[OF n(3) _ ren_iffs(3) notmin]) simp
        have g_tmin: "getitem (setitem ?df1 ''day'' D) ''tmin'' = (Inr (col df0 ''tempmin'') :: 'c error + 'a cell list)" for D
          by (intro one) (simp add: other tmin)
        show ?thesis
        proof (cases "''prcp'' \<in> set (columns df0)")
          case True
          have "2 \<le> length (labelled ?df1 ''prcp'')"
            by (rule rt(2)[OF n(5) _ ren_iffs(5) True]) simp
          then have "getitem (setitem (setitem ?df1 ''day'' D) ''temp_range'' T) ''prcp''
              = (Inl ValueError :: 'c error + 'a cell list)" for D T
            by (intro dup) (simp add: other)
          then show ?thesis using True nodate notmax notmin \<open>need - set (columns df0) = {}\<close>
            by (simp add: derive_def Let_def g_date g_tmax g_tmin)
        next
          case noprcp: False
          have prcp: "labelled ?df1 ''prcp'' = [col df0 ''precip'']"
            by (rule rt(1)[OF n(5) _ ren_iffs(5) noprcp]) simp
          have g_prcp: "getitem (setitem (setitem ?df1 ''day'' D) ''temp_range'' T) ''prcp''
              = (Inr (col df0 ''precip'') :: 'c error + 'a cell list)" for D T
            by (intro one) (simp add: other prcp)
          have sel: "select (setitem (setitem (setitem (setitem ?df1 ''day'' D) ''temp_range'' T)
                        ''is_rainy'' R) ''is_hot'' H) canonical =
               (Inr ((''date'', col df0 ''datetime'') #
                     map (Pair ''tavg'') (map snd (filter (\<lambda>p. fst p = ''temp'' \<or> fst p = ''tavg'') df0)) @
                     [(''tmin'', col df0 ''tempmin''), (''tmax'', col df0 ''tempmax''),
                      (''prcp'', col df0 ''precip''), (''temp_range'', T), (''day'', D),
                      (''is_rainy'', R), (''is_hot'', H)]) :: 'c error + 'a frame)" for D T R H
          proof -
            let ?df = "setitem (setitem (setitem (setitem ?df1 ''day'' D) ''temp_range'' T)
                        ''is_rainy'' R) ''is_hot'' H"
            have l: "labelled ?df ''date'' = [col df0 ''datetime'']"
              "labelled ?df ''tavg'' = map snd (filter (\<lambda>p. fst p = ''temp'' \<or> fst p = ''tavg'') df0)"
              "labelled ?df ''tmin'' = [col df0 ''tempmin'']"
              "labelled ?df ''tmax'' = [col df0 ''tempmax'']"
              "labelled ?df ''prcp'' = [col df0 ''precip'']"
              by (simp_all add: other date tavg tmin tmax prcp)
            have l1: "labelled ?df ''day'' = [D]"
              by (simp add: other labelled_setitem_same[OF fixed(1)])
            have "labelled (setitem (setitem ?df1 ''day'' D) ''temp_range'' T) ''temp_range'' = [T]"
              by (rule labelled_setitem_same) (use fixed in \<open>simp add: other\<close>)
            then have l2: "labelled ?df ''temp_range'' = [T]"
              by (simp add: other)
            have "labelled (setitem (setitem (setitem ?df1 ''day'' D) ''temp_range'' T)
                      ''is_rainy'' R) ''is_rainy'' = [R]"
              by (rule labelled_setitem_same) (use fixed in \<open>simp add: other\<close>)
            then have l3: "labelled ?df ''is_rainy'' = [R]"
              by (simp add: other)
            have l4: "labelled ?df ''is_hot'' = [H]"
              by (rule labelled_setitem_same) (use fixed in \<open>simp add: other\<close>)
            have "labelled ?df k \<noteq> []" if "k \<in> set canonical" for k
              using that l l1 l2 l3 l4 tavg_ne tavg by (auto simp: canonical_def)
            then have "(select ?df canonical :: 'c error + 'a frame) =
                Inr (concat (map (\<lambda>k. map (Pair k) (labelled ?df k)) canonical))"
              by (rule select_canonical)
            also have "concat (map (\<lambda>k. map (Pair k) (labelled ?df k)) canonical) =
              (''date'', col df0 ''datetime'') #
                     map (Pair ''tavg'') (map snd (filter (\<lambda>p. fst p = ''temp'' \<or> fst p = ''tavg'') df0)) @
                     [(''tmin'', col df0 ''tempmin''), (''tmax'', col df0 ''tempmax''),
                      (''prcp'', col df0 ''precip''), (''temp_range'', T), (''day'', D),
                      (''is_rainy'', R), (''is_hot'', H)]"
              unfolding canonical_def by (simp add: l l1 l2 l3 l4 del: labelled_Cons)
            finally show ?thesis .
          qed
          show ?thesis using nodate notmax notmin noprcp \<open>need - set (columns df0) = {}\<close>
            by (simp add: derive_def Let_def g_date g_tmax g_tmin g_prcp g_tmax2 sel derived_def)
        qed
      qed
    qed
  qed
qed

subsection \<open>What the transform returns\<close>

lemma labelled_Pair: "labelled (map (Pair k) xss) c = (if c = k then xss else [])"
  by (induction xss) auto

lemma labelled_Pair_comp: "labelled (map (Pair k \<circ> f) ps) c = (if c = k then map f ps else [])"
  by (induction ps) auto

lemma col_in: 
  "distinct (columns df) \<Longrightarrow> c \<in> set (columns df) \<Longrightarrow> col df c \<in> snd ` set df"
  using labelled_col[of df c] labelled_subset[of df c] by auto

lemma derive_Inr:
  fixes pd :: "('a::{minus,ord,zero,one}, 'c) pandas"
  assumes "distinct (columns df0)" and "derive pd hot df0 = Inr out"
  obtains T R H where
    "need \<subseteq> set (columns df0)"
    "''date'' \<notin> set (columns df0)" "''tmax'' \<notin> set (columns df0)"
    "''tmin'' \<notin> set (columns df0)" "''prcp'' \<notin> set (columns df0)"
    "(series_sub (col df0 ''tempmax'') (col df0 ''tempmin'') :: 'c error + _) = Inr T"
    "(series_gt (col df0 ''precip'') 0 :: 'c error + _) = Inr R"
    "(series_ge (col df0 ''tempmax'') hot :: 'c error + _) = Inr H"
    "out = derived pd df0 T R H"
proof -
  from assms(2) have
    "need \<subseteq> set (columns df0) \<and>
    ''date'' \<notin> set (columns df0) \<and> ''tmax'' \<notin> set (columns df0) \<and>
    ''tmin'' \<notin> set (columns df0) \<and> ''prcp'' \<notin> set (columns df0) \<and>
    (\<exists>T R H. (series_sub (col df0 ''tempmax'') (col df0 ''tempmin'') :: 'c error + _) = Inr T \<and>
    (series_gt (col df0 ''precip'') 0 :: 'c error + _) = Inr R \<and>
    (series_ge (col df0 ''tempmax'') hot :: 'c error + _) = Inr H \<and>
    out = derived pd df0 T R H)"
    unfolding derive_closed[OF assms(1)]
    by (auto simp: ebind_def split: if_splits sum.splits)
  then show ?thesis using that by blast
qed

lemma getitem_derived:
  "(getitem (derived pd df0 T R H) ''date'' :: 'c error + _) = Inr (col df0 ''datetime'')"
  "(getitem (derived pd df0 T R H) ''tmin'' :: 'c error + _) = Inr (col df0 ''tempmin'')"
  "(getitem (derived pd df0 T R H) ''tmax'' :: 'c error + _) = Inr (col df0 ''tempmax'')"
  "(getitem (derived pd df0 T R H) ''prcp'' :: 'c error + _) = Inr (col df0 ''precip'')"
  "(getitem (derived pd df0 T R H) ''temp_range'' :: 'c error + _) = Inr T"
  "(getitem (derived pd df0 T R H) ''day'' :: 'c error + _) =
      Inr (map day_name (map (to_datetime pd) (col df0 ''datetime'')))"
  "(getitem (derived pd df0 T R H) ''is_rainy'' :: 'c error + _) = Inr (map astype_int R)"
  "(getitem (derived pd df0 T R H) ''is_hot'' :: 'c error + _) = Inr (map astype_int H)"
  by (simp_all add: getitem_def derived_def labelled_Pair_comp)

lemma series_sub_Inr:
  assumes "(series_sub xs ys :: 'c error + _) = Inr T"
  shows "length T = min (length xs) (length ys)"
    and "i < length T \<Longrightarrow>
         (case (xs ! i, ys ! i) of (Num a, Num b) \<Rightarrow> T ! i = Num (a - b) | _ \<Rightarrow> T ! i = NaN)"
proof -
  from collect_Inr[OF assms[unfolded series_sub_def]]
  have len: "length T = length (zip xs ys)"
    and nth: "\<And>i. i < length (zip xs ys) \<Longrightarrow> (sub_cell (xs ! i) (ys ! i) :: 'c error + _) = Inr (T ! i)"
    by auto
  show "length T = min (length xs) (length ys)" using len by simp
  show "(case (xs ! i, ys ! i) of (Num a, Num b) \<Rightarrow> T ! i = Num (a - b) | _ \<Rightarrow> T ! i = NaN)"
    if "i < length T"
    using nth[of i] that len
    by (cases "xs ! i"; cases "ys ! i") auto
qed

lemma series_gt_Inr:
  assumes "(series_gt xs t :: 'c error + _) = Inr R"
  shows "length R = length xs"
    and "i < length xs \<Longrightarrow> R ! i \<longleftrightarrow> (\<exists>a. xs ! i = Num a \<and> t < a)"
proof -
  from collect_Inr[OF assms[unfolded series_gt_def]]
  have len: "length R = length xs"
    and nth: "\<And>i. i < length xs \<Longrightarrow> (gt_cell (xs ! i) t :: 'c error + _) = Inr (R ! i)"
    by auto
  show "length R = length xs" by (rule len)
  show "R ! i \<longleftrightarrow> (\<exists>a. xs ! i = Num a \<and> t < a)" if "i < length xs"
    using nth[OF that] by (cases "xs ! i") auto
qed

lemma series_ge_Inr:
  assumes "(series_ge xs t :: 'c error + _) = Inr R"
  shows "length R = length xs"
    and "i < length xs \<Longrightarrow> R ! i \<longleftrightarrow> (\<exists>a. xs ! i = Num a \<and> t \<le> a)"
proof -
  from collect_Inr[OF assms[unfolded series_ge_def]]
  have len: "length R = length xs"
    and nth: "\<And>i. i < length xs \<Longrightarrow> (ge_cell (xs ! i) t :: 'c error + _) = Inr (R ! i)"
    by auto
  show "length R = length xs" by (rule len)
  show "R ! i \<longleftrightarrow> (\<exists>a. xs ! i = Num a \<and> t \<le> a)" if "i < length xs"
    using nth[OF that] by (cases "xs ! i") auto
qed

lemma need_cols:
  assumes "need \<subseteq> set (columns df)"
  shows "''datetime'' \<in> set (columns df)" "''temp'' \<in> set (columns df)"
    "''tempmin'' \<in> set (columns df)" "''tempmax'' \<in> set (columns df)"
    "''precip'' \<in> set (columns df)"
  using assms by (auto simp: need_def)

lemma col_length:
  assumes "distinct (columns df)" "\<forall>p\<in>set df. length (snd p) = n" "c \<in> set (columns df)"
  shows "length (col df c) = n"
  using col_in[OF assms(1,3)] assms(2) by auto



lemma derive_sample: "(derive pd_sample 30 sample_frame :: char error + int frame) = Inr sample_out"
  by code_simp

lemma sample_wf: "distinct (columns sample_frame)" "\<forall>p\<in>set sample_frame. length (snd p) = 3"
  by (simp_all add: sample_frame_def columns_def)

lemma read_csv_sample_values:
  "read_csv pd_sample body_sample = Some sample_frame"
  "read_csv pd_sample body_no_temp = Some frame_no_temp"
  "read_csv pd_sample body_tavg = Some frame_tavg"
  "read_csv pd_sample body_day = Some frame_day"
  "read_csv pd_sample body_week = Some frame_week"
  "read_csv pd_sample [] = None"
  by (simp_all add: pd_sample_def read_csv_sample_def body_sample_def body_no_temp_def
      body_tavg_def body_day_def body_week_def)

subsection \<open>The derived columns\<close>

text \<open>
  C3. In every row of the table the transform returns, \<open>temp_range\<close> is \<open>tmax - tmin\<close>,
  the subtraction of the column's dtype with no clamping or correction, negative
  differences included; where either operand is missing so is the result.
\<close>

theorem temp_range_exact:
  fixes pd :: "('a::{minus,ord,zero,one}, 'c) pandas"
  assumes "distinct (columns df0)" and "\<forall>p\<in>set df0. length (snd p) = n"
    and "derive pd hot df0 = Inr out"
  shows "\<exists>tmax tmin temp_range.
      (getitem out ''tmax'' :: 'c error + _) = Inr tmax \<and>
      (getitem out ''tmin'' :: 'c error + _) = Inr tmin \<and>
      (getitem out ''temp_range'' :: 'c error + _) = Inr temp_range \<and>
      length tmax = n \<and> length tmin = n \<and> length temp_range = n \<and>
      (\<forall>i<n. case (tmax ! i, tmin ! i) of
                (Num a, Num b) \<Rightarrow> temp_range ! i = Num (a - b)
              | _ \<Rightarrow> temp_range ! i = NaN)"
proof -
  from assms(1,3) obtain T R H where
    nd: "need \<subseteq> set (columns df0)"
    and T: "(series_sub (col df0 ''tempmax'') (col df0 ''tempmin'') :: 'c error + _) = Inr T"
    and out: "out = derived pd df0 T R H"
    by (rule derive_Inr)
  have len: "length (col df0 ''tempmax'') = n" "length (col df0 ''tempmin'') = n"
    using col_length[OF assms(1,2)] need_cols[OF nd] by auto
  have lT: "length T = n" using series_sub_Inr(1)[OF T] len by simp
  show ?thesis
    unfolding out getitem_derived
    using len lT series_sub_Inr(2)[OF T] by auto
qed

theorem temp_range_exact_witness:
  "(derive pd_sample 30 sample_frame :: char error + int frame) = Inr sample_out \<and>
   (\<exists>tmax tmin temp_range.
      (getitem sample_out ''tmax'' :: char error + _) = Inr tmax \<and>
      (getitem sample_out ''tmin'' :: char error + _) = Inr tmin \<and>
      (getitem sample_out ''temp_range'' :: char error + _) = Inr temp_range \<and>
      tmax ! 1 = Num 5 \<and> tmin ! 1 = Num 9 \<and> temp_range ! 1 = Num (- 4) \<and>
      (\<forall>i<3. case (tmax ! i, tmin ! i) of
                (Num a, Num b) \<Rightarrow> temp_range ! i = Num (a - b)
              | _ \<Rightarrow> temp_range ! i = NaN))"
proof -
  have d: "(derive pd_sample 30 sample_frame :: char error + int frame) = Inr sample_out"
    by (rule derive_sample)
  from temp_range_exact[OF sample_wf d] obtain tmax tmin temp_range where
    g: "(getitem sample_out ''tmax'' :: char error + _) = Inr tmax"
      "(getitem sample_out ''tmin'' :: char error + _) = Inr tmin"
      "(getitem sample_out ''temp_range'' :: char error + _) = Inr temp_range"
    and r: "\<forall>i<3. case (tmax ! i, tmin ! i) of
                (Num a, Num b) \<Rightarrow> temp_range ! i = Num (a - b)
              | _ \<Rightarrow> temp_range ! i = NaN"
    by blast
  have v: "tmax = [Num 30, Num 5, Num 8]" "tmin = [Num 12, Num 9, NaN]"
    "temp_range = [Num 18, Num (- 4), NaN]"
    using g by (simp_all add: getitem_def sample_out_def)
  show ?thesis using d g r v by auto
qed


text \<open>
  C4. In every row of the table the transform returns, \<open>is_rainy\<close> is 1 if and only if
  \<open>prcp > 0\<close> and 0 otherwise, and \<open>is_hot\<close> is 1 if and only if \<open>tmax \<ge> hot_threshold\<close>
  and 0 otherwise; the threshold is compared as it is given.
\<close>

theorem indicators:
  fixes pd :: "('a::{minus,ord,zero_neq_one}, 'c) pandas"
  assumes "distinct (columns df0)" and "\<forall>p\<in>set df0. length (snd p) = n"
    and "derive pd hot_threshold df0 = Inr out"
  shows "\<exists>prcp tmax is_rainy is_hot.
      (getitem out ''prcp'' :: 'c error + _) = Inr prcp \<and>
      (getitem out ''tmax'' :: 'c error + _) = Inr tmax \<and>
      (getitem out ''is_rainy'' :: 'c error + _) = Inr is_rainy \<and>
      (getitem out ''is_hot'' :: 'c error + _) = Inr is_hot \<and>
      length prcp = n \<and> length tmax = n \<and> length is_rainy = n \<and> length is_hot = n \<and>
      (\<forall>i<n. (is_rainy ! i = Num 1 \<longleftrightarrow> (\<exists>a. prcp ! i = Num a \<and> 0 < a)) \<and>
             (is_rainy ! i = Num 0 \<longleftrightarrow> \<not> (\<exists>a. prcp ! i = Num a \<and> 0 < a)) \<and>
             (is_hot ! i = Num 1 \<longleftrightarrow> (\<exists>a. tmax ! i = Num a \<and> hot_threshold \<le> a)) \<and>
             (is_hot ! i = Num 0 \<longleftrightarrow> \<not> (\<exists>a. tmax ! i = Num a \<and> hot_threshold \<le> a)))"
proof -
  from assms(1,3) obtain T R H where
    nd: "need \<subseteq> set (columns df0)"
    and R: "(series_gt (col df0 ''precip'') 0 :: 'c error + _) = Inr R"
    and H: "(series_ge (col df0 ''tempmax'') hot_threshold :: 'c error + _) = Inr H"
    and out: "out = derived pd df0 T R H"
    by (rule derive_Inr)
  have len: "length (col df0 ''tempmax'') = n" "length (col df0 ''precip'') = n"
    using col_length[OF assms(1,2)] need_cols[OF nd] by auto
  have lR: "length R = n" and lH: "length H = n"
    using series_gt_Inr(1)[OF R] series_ge_Inr(1)[OF H] len by simp_all
  have rainy: "R ! i \<longleftrightarrow> (\<exists>a. col df0 ''precip'' ! i = Num a \<and> 0 < a)" if "i < n" for i
    using series_gt_Inr(2)[OF R, of i] that len by simp
  have hot: "H ! i \<longleftrightarrow> (\<exists>a. col df0 ''tempmax'' ! i = Num a \<and> hot_threshold \<le> a)" if "i < n" for i
    using series_ge_Inr(2)[OF H, of i] that len by simp
  show ?thesis
    unfolding out getitem_derived
    using len lR lH rainy hot by (simp add: astype_int_def)
qed

theorem indicators_witness:
  "(derive pd_sample 30 sample_frame :: char error + int frame) = Inr sample_out \<and>
   (\<exists>prcp tmax is_rainy is_hot.
      (getitem sample_out ''prcp'' :: char error + _) = Inr prcp \<and>
      (getitem sample_out ''tmax'' :: char error + _) = Inr tmax \<and>
      (getitem sample_out ''is_rainy'' :: char error + _) = Inr is_rainy \<and>
      (getitem sample_out ''is_hot'' :: char error + _) = Inr is_hot \<and>
      prcp = [Num 0, Num 2, NaN] \<and> is_rainy = [Num 0, Num 1, Num 0] \<and>
      tmax = [Num 30, Num 5, Num 8] \<and> is_hot = [Num 1, Num 0, Num 0] \<and>
      (\<forall>i<3. (is_rainy ! i = Num 1 \<longleftrightarrow> (\<exists>a. prcp ! i = Num a \<and> 0 < a)) \<and>
             (is_hot ! i = Num 1 \<longleftrightarrow> (\<exists>a. tmax ! i = Num a \<and> 30 \<le> a))))"
proof -
  have d: "(derive pd_sample 30 sample_frame :: char error + int frame) = Inr sample_out"
    by (rule derive_sample)
  from indicators[OF sample_wf d] obtain prcp tmax is_rainy is_hot where
    g: "(getitem sample_out ''prcp'' :: char error + _) = Inr prcp"
      "(getitem sample_out ''tmax'' :: char error + _) = Inr tmax"
      "(getitem sample_out ''is_rainy'' :: char error + _) = Inr is_rainy"
      "(getitem sample_out ''is_hot'' :: char error + _) = Inr is_hot"
    and r: "\<forall>i<3. (is_rainy ! i = Num 1 \<longleftrightarrow> (\<exists>a. prcp ! i = Num a \<and> 0 < a)) \<and>
             (is_hot ! i = Num 1 \<longleftrightarrow> (\<exists>a. tmax ! i = Num a \<and> 30 \<le> a))"
    by blast
  have v: "prcp = [Num 0, Num 2, NaN]" "is_rainy = [Num 0, Num 1, Num 0]"
    "tmax = [Num 30, Num 5, Num 8]" "is_hot = [Num 1, Num 0, Num 0]"
    using g by (simp_all add: getitem_def sample_out_def)
  show ?thesis using d g r v by blast
qed

subsection \<open>Exceptions of the transform\<close>

lemma raises_only_ebind:
  "raises_only P m \<Longrightarrow> (\<And>x. raises_only P (f x)) \<Longrightarrow> raises_only P (ebind m f)"
  by (cases m) (simp_all add: raises_only_def)

lemma raises_only_getitem: "raises_only lookup_error (getitem df c)"
  by (simp add: raises_only_def getitem_def lookup_error_def split: list.splits)

lemma raises_only_select: "raises_only lookup_error (select df ks)"
  by (simp add: raises_only_def select_def lookup_error_def split: list.splits)

lemma raises_only_collect:
  "(\<And>m. m \<in> set ms \<Longrightarrow> raises_only P m) \<Longrightarrow> raises_only P (collect ms)"
proof (induction ms rule: collect.induct)
  case 1
  then show ?case by (simp add: raises_only_def)
next
  case (2 e uu)
  from 2(1)[of "Inl e"] show ?case by (simp add: raises_only_def)
next
  case (3 x ms)
  then have "raises_only P (collect ms)" by simp
  then show ?case by (cases "collect ms") (simp_all add: raises_only_def)
qed

lemma raises_only_cells:
  "raises_only lookup_error (sub_cell x y)"
  "raises_only lookup_error (gt_cell x t)"
  "raises_only lookup_error (ge_cell x t)"
  by (cases x; cases y; simp add: raises_only_def lookup_error_def)
     (cases x; simp add: raises_only_def lookup_error_def)+

lemma raises_only_series:
  "raises_only lookup_error (series_sub xs ys)"
  "raises_only lookup_error (series_gt xs t)"
  "raises_only lookup_error (series_ge xs t)"
  unfolding series_sub_def series_gt_def series_ge_def
  by (rule raises_only_collect; auto simp: raises_only_cells)+

lemma derive_Inl:
  fixes pd :: "('a::{minus,ord,zero,one}, 'c) pandas"
  assumes "derive pd hot df0 = Inl e"
  shows "(\<not> need \<subseteq> set (columns df0) \<and>
            e = SchemaError (need - set (columns df0)) (columns df0)) \<or>
         (need \<subseteq> set (columns df0) \<and> lookup_error e)"
proof (cases "need \<subseteq> set (columns df0)")
  case False
  then show ?thesis using assms by (simp add: derive_def Let_def)
next
  case True
  have "raises_only lookup_error (derive pd hot df0)"
    using True unfolding derive_def Let_def
    by (simp del: ebind_simps)
       (intro raises_only_ebind raises_only_getitem raises_only_select raises_only_series)
  then show ?thesis using True assms by (simp add: raises_only_def)
qed

subsection \<open>The weekday column\<close>







lemma derive_sample_unparsed:
  "(derive (pd_sample\<lparr>to_datetime := \<lambda>c. None\<rparr>) 30 sample_frame :: char error + int frame) =
     Inr (sample_out[6 := (''day'', [NaN, NaN, NaN])])"
  by code_simp



subsection \<open>Rows and columns of the output\<close>














subsection \<open>The columns check\<close>

lemma parse_and_derive_schema:
  fixes pd :: "('a::{minus,ord,zero,one}, 'c) pandas"
  assumes "read_csv pd body = Some df0"
  shows "\<not> need \<subseteq> set (columns df0) \<Longrightarrow>
           parse_and_derive pd hot body =
             Inl (SchemaError (need - set (columns df0)) (columns df0))"
    and "need \<subseteq> set (columns df0) \<Longrightarrow>
           parse_and_derive pd hot body \<noteq> Inl (SchemaError miss present)"
proof -
  show "parse_and_derive pd hot body = Inl (SchemaError (need - set (columns df0)) (columns df0))"
    if "\<not> need \<subseteq> set (columns df0)"
    using that assms by (simp add: parse_and_derive_def derive_def Let_def)
  show "parse_and_derive pd hot body \<noteq> Inl (SchemaError miss present)"
    if "need \<subseteq> set (columns df0)"
  proof
    assume "parse_and_derive pd hot body = Inl (SchemaError miss present)"
    then have "derive pd hot df0 = Inl (SchemaError miss present)"
      using assms by (simp add: parse_and_derive_def)
    from derive_Inl[OF this] that show False by (simp add: lookup_error_def)
  qed
qed

lemma fetch_after_status:
  "sess_get sess server = Inr r \<Longrightarrow> \<not> raises_for_status r \<Longrightarrow>
   fetch_days_csv pd hot sess server = parse_and_derive pd hot (response_text r)"
  "\<not> raises_for_status (server 0) \<Longrightarrow>
   fetch_days_csv_plain pd hot server = parse_and_derive pd hot (response_text (server 0))"
  by (simp_all add: fetch_days_csv_def fetch_days_csv_plain_def requests_get_def)

text \<open>
  C6. When the body parses to a table that lacks any of the five required columns, the
  fetch fails with the schema error, which carries exactly the required columns that are
  missing and the list of the columns present; when the table has all five, the fetch
  never fails with a schema error. Both variants of the fetch agree.
\<close>

theorem schema_error:
  fixes pd :: "('a::{minus,ord,zero,one}, 'c) pandas"
  assumes "read_csv pd (response_text r) = Some df0" and "\<not> raises_for_status r"
    and "sess_get sess server = Inr r" and "server' 0 = r"
  shows "(\<not> need \<subseteq> set (columns df0) \<longrightarrow>
            fetch_days_csv pd hot sess server =
              Inl (SchemaError (need - set (columns df0)) (columns df0)) \<and>
            fetch_days_csv_plain pd hot server' =
              Inl (SchemaError (need - set (columns df0)) (columns df0))) \<and>
         (need \<subseteq> set (columns df0) \<longrightarrow>
            (\<forall>miss present.
               fetch_days_csv pd hot sess server \<noteq> Inl (SchemaError miss present) \<and>
               fetch_days_csv_plain pd hot server' \<noteq> Inl (SchemaError miss present)))"
proof -
  have f: "fetch_days_csv pd hot sess server = parse_and_derive pd hot (response_text r)"
    "fetch_days_csv_plain pd hot server' = parse_and_derive pd hot (response_text r)"
    using assms(2-4) by (simp_all add: fetch_after_status)
  show ?thesis
    unfolding f using parse_and_derive_schema[OF assms(1)] by simp
qed

lemma default_session_ok:
  "\<not> is_retry (max_retries default_session) ''GET'' 200 False"
  by (simp add: default_session_def session_with_retry_def is_retry_def RETRY_AFTER_STATUS_CODES_def)

lemma sess_get_200:
  "sess_get default_session (\<lambda>k. reply 200 body) = Inr (reply 200 body)"
  using default_session_ok by (simp add: sess_get_def reply_def)

theorem schema_error_witness:
  "(fetch_days_csv pd_sample 30 default_session (\<lambda>k. reply 200 body_no_temp)
      :: char error + int frame) =
     Inl (SchemaError {''temp''} [''datetime'', ''tempmin'', ''tempmax'', ''precip'']) \<and>
   (fetch_days_csv_plain pd_sample 30 (\<lambda>k. reply 200 body_no_temp)
      :: char error + int frame) =
     Inl (SchemaError {''temp''} [''datetime'', ''tempmin'', ''tempmax'', ''precip'']) \<and>
   (fetch_days_csv pd_sample 30 default_session (\<lambda>k. reply 200 body_sample)
      :: char error + int frame) \<noteq> Inl (SchemaError {} (columns sample_frame))"
proof -
  have r: "read_csv pd_sample (response_text (reply 200 body_no_temp)) = Some frame_no_temp"
    "read_csv pd_sample (response_text (reply 200 body_sample)) = Some sample_frame"
    by (simp_all add: read_csv_sample_values reply_def)
  have s: "\<not> raises_for_status (reply 200 body)" for body :: string
    by (simp add: raises_for_status_def reply_def)
  have m: "\<not> need \<subseteq> set (columns frame_no_temp)"
    "need - set (columns frame_no_temp) = {''temp''}"
    "columns frame_no_temp = [''datetime'', ''tempmin'', ''tempmax'', ''precip'']"
    "need \<subseteq> set (columns sample_frame)"
    by (auto simp: need_def frame_no_temp_def sample_frame_def columns_def)
  from schema_error[OF r(1) s sess_get_200 refl, where hot = 30] m(1)
  have "(fetch_days_csv pd_sample 30 default_session (\<lambda>k. reply 200 body_no_temp)
      :: char error + int frame) =
        Inl (SchemaError (need - set (columns frame_no_temp)) (columns frame_no_temp))"
    and "(fetch_days_csv_plain pd_sample 30 (\<lambda>k. reply 200 body_no_temp)
      :: char error + int frame) =
        Inl (SchemaError (need - set (columns frame_no_temp)) (columns frame_no_temp))"
    by blast+
  moreover from schema_error[OF r(2) s sess_get_200 refl, where hot = 30] m(4)
  have "(fetch_days_csv pd_sample 30 default_session (\<lambda>k. reply 200 body_sample)
      :: char error + int frame) \<noteq> Inl (SchemaError {} (columns sample_frame))"
    by blast
  ultimately show ?thesis unfolding m(2) unfolding m(3) by simp
qed

subsection \<open>The retrying session\<close>

lemma is_retry_standard:
  "standard r \<Longrightarrow> forced s \<Longrightarrow> is_retry r ''GET'' s ra"
  "standard r \<Longrightarrow> \<not> forced s \<Longrightarrow> \<not> is_retry r ''GET'' s False"
  by (auto simp: standard_def forced_def is_retry_def)

lemma increment_standard:
  assumes "standard r"
  shows "0 < retry_total r \<Longrightarrow>
      \<exists>r'. (increment r s :: 'c error + retry) = Inr r' \<and> standard r' \<and>
           retry_total r' = retry_total r - 1"
    and "retry_total r = 0 \<Longrightarrow> (increment r s :: 'c error + retry) = Inl (RetryError s)"
  using assms by (auto simp: increment_def is_exhausted_def standard_def Let_def)

lemma urlopen_final:
  fixes server :: "nat \<Rightarrow> 'c response"
  assumes "standard r" and "int k \<le> retry_total r"
    and "\<forall>i<k. forced (status_code (server (j + i)))"
    and "\<not> forced (status_code (server (j + k)))" and "\<not> has_retry_after (server (j + k))"
  shows "urlopen r server j = Inr (server (j + k))"
  using assms
proof (induction k arbitrary: r j)
  case 0
  then show ?case using is_retry_standard(2)[of r "status_code (server j)"] by simp
next
  case (Suc k)
  have f: "forced (status_code (server j))" using Suc.prems(3) by force
  have "0 < retry_total r" using Suc.prems(2) by simp
  from increment_standard(1)[OF Suc.prems(1) this, of "status_code (server j)"]
  obtain r' where r': "(increment r (status_code (server j)) :: 'c error + retry) = Inr r'"
    "standard r'" "retry_total r' = retry_total r - 1"
    by blast
  have "urlopen r' server (Suc j) = Inr (server (Suc j + k))"
  proof (rule Suc.IH[OF r'(2)])
    show "int k \<le> retry_total r'" using r'(3) Suc.prems(2) by simp
    show "\<forall>i<k. forced (status_code (server (Suc j + i)))"
      using Suc.prems(3) by (metis Suc_less_eq add_Suc_shift)
    show "\<not> forced (status_code (server (Suc j + k)))" using Suc.prems(4) by simp
    show "\<not> has_retry_after (server (Suc j + k))" using Suc.prems(5) by simp
  qed
  then show ?case
    using is_retry_standard(1)[OF Suc.prems(1) f] r'(1) by simp
qed

lemma urlopen_exhausted:
  fixes server :: "nat \<Rightarrow> 'c response"
  assumes "standard r" and "retry_total r = int k"
    and "\<forall>i\<le>k. forced (status_code (server (j + i)))"
  shows "urlopen r server j = Inl (RetryError (status_code (server (j + k))))"
  using assms
proof (induction k arbitrary: r j)
  case 0
  then have f: "forced (status_code (server j))" by simp
  have "(increment r (status_code (server j)) :: 'c error + retry) =
      Inl (RetryError (status_code (server j)))"
    using "0.prems"(1,2) by (intro increment_standard(2)) simp_all
  then show ?case
    using is_retry_standard(1)[OF "0.prems"(1) f] by simp
next
  case (Suc k)
  have f: "forced (status_code (server j))" using Suc.prems(3) by force
  have "0 < retry_total r" using Suc.prems(2) by simp
  from increment_standard(1)[OF Suc.prems(1) this, of "status_code (server j)"]
  obtain r' where r': "(increment r (status_code (server j)) :: 'c error + retry) = Inr r'"
    "standard r'" "retry_total r' = retry_total r - 1"
    by blast
  have "urlopen r' server (Suc j) = Inl (RetryError (status_code (server (Suc j + k))))"
  proof (rule Suc.IH[OF r'(2)])
    show "retry_total r' = int k" using r'(3) Suc.prems(2) by simp
    show "\<forall>i\<le>k. forced (status_code (server (Suc j + i)))"
      using Suc.prems(3) by (metis Suc_le_mono add_Suc_shift)
  qed
  then show ?case
    using is_retry_standard(1)[OF Suc.prems(1) f] r'(1) by simp
qed

lemma default_standard:
  "standard (max_retries default_session)" "retry_total (max_retries default_session) = 4"
  by (simp_all add: default_session_def session_with_retry_def standard_def)

lemma urlopen_errors: "urlopen r server j = Inl e \<Longrightarrow> \<exists>s. e = RetryError s"
proof (induction r server j rule: urlopen.induct)
  case (1 retries server k)
  show ?case
  proof (cases "is_retry retries ''GET'' (status_code (server k)) (has_retry_after (server k))")
    case False
    with "1.prems" show ?thesis by simp
  next
    case True
    show ?thesis
    proof (cases "increment retries (status_code (server k)) :: 'a error + retry")
      case (Inl e')
      then have "e' = RetryError (status_code (server k))"
        by (auto simp: increment_def Let_def split: if_splits)
      with Inl True "1.prems" show ?thesis by auto
    next
      case (Inr r')
      with True "1.prems" "1.IH"[OF refl True Inr] show ?thesis by simp
    qed
  qed
qed

lemma parse_and_derive_Inl:
  fixes pd :: "('a::{minus,ord,zero,one}, 'c) pandas"
  assumes "parse_and_derive pd hot body = Inl e"
  shows "e = ReadCsvError \<or> (\<exists>m p. e = SchemaError m p) \<or> lookup_error e"
proof (cases "read_csv pd body")
  case None
  with assms show ?thesis by (simp add: parse_and_derive_def)
next
  case (Some df0)
  with assms have "derive pd hot df0 = Inl e" by (simp add: parse_and_derive_def)
  from derive_Inl[OF this] show ?thesis by blast
qed

lemma parse_and_derive_not_http:
  fixes pd :: "('a::{minus,ord,zero,one}, 'c) pandas"
  shows "parse_and_derive pd hot body \<noteq> Inl (HttpError s p)"
    and "parse_and_derive pd hot body \<noteq> Inl (RequestsHTTPError s p)"
  using parse_and_derive_Inl[of pd hot body] by (auto simp: lookup_error_def)

lemma backoff_times:
  "map (\<lambda>n. get_backoff_time ((max_retries default_session)\<lparr>history := replicate n 503\<rparr>))
     [1, 2, 3, 4] = [0, 1, 2, 4]"
  by (simp add: get_backoff_time_def default_session_def session_with_retry_def
      DEFAULT_BACKOFF_MAX_def Let_def)

text \<open>
  C2, amended. The session of the workflow variant retries GET on the statuses 429, 500,
  502, 503 and 504 with \<^verbatim>\<open>total = 4\<close>, which is four retries after the first attempt: five
  requests at most. If one of the first five replies is not a retried status, that reply is
  the result of the session (so three replies 503 and then 200 succeed, and so do four);
  if all five are, the session raises \<^verbatim>\<open>RetryError\<close>, which the fetch lets through, not
  \<open>HttpError\<close>. The plain variants send one request and fail on the first such status.
  The backoff factor is 0.5: no delay before the first retry, then 1, 2 and 4.
\<close>

theorem retry_budget:
  fixes pd :: "('a::{minus,ord,zero,one}, 'c) pandas" and server :: "nat \<Rightarrow> 'c response"
  shows
   "(k \<le> 4 \<and> (\<forall>i<k. forced (status_code (server i))) \<and>
     \<not> forced (status_code (server k)) \<and> \<not> has_retry_after (server k) \<longrightarrow>
       sess_get default_session server = Inr (server k) \<and>
       (\<not> raises_for_status (server k) \<longrightarrow>
          fetch_days_csv pd hot default_session server =
            parse_and_derive pd hot (response_text (server k)))) \<and>
    ((\<forall>i\<le>4. forced (status_code (server i))) \<longrightarrow>
       sess_get default_session server = Inl (RetryError (status_code (server 4))) \<and>
       fetch_days_csv pd hot default_session server = Inl (RetryError (status_code (server 4)))) \<and>
    (forced (status_code (server 0)) \<longrightarrow>
       fetch_days_csv_plain pd hot server =
         Inl (RequestsHTTPError (status_code (server 0)) (response_text (server 0)))) \<and>
    (\<forall>s. forced s \<longleftrightarrow> s \<in> {429, 500, 502, 503, 504}) \<and>
    retry_total (max_retries default_session) = 4 \<and>
    backoff_factor (max_retries default_session) = 1 / 2 \<and>
    status_forcelist (max_retries default_session) = [429, 500, 502, 503, 504] \<and>
    allowed_methods (max_retries default_session) = [''GET''] \<and>
    map (\<lambda>n. get_backoff_time ((max_retries default_session)\<lparr>history := replicate n 503\<rparr>))
      [1, 2, 3, 4] = [0, 1, 2, 4]"
proof (intro conjI impI allI)
  assume h: "k \<le> 4 \<and> (\<forall>i<k. forced (status_code (server i))) \<and>
     \<not> forced (status_code (server k)) \<and> \<not> has_retry_after (server k)"
  have "urlopen (max_retries default_session) server 0 = Inr (server (0 + k))"
    by (rule urlopen_final[OF default_standard(1)]) (use h default_standard(2) in simp_all)
  then show g: "sess_get default_session server = Inr (server k)"
    by (simp add: sess_get_def)
  show "fetch_days_csv pd hot default_session server =
            parse_and_derive pd hot (response_text (server k))"
    if "\<not> raises_for_status (server k)"
    using g that by (simp add: fetch_days_csv_def)
next
  assume h: "\<forall>i\<le>4. forced (status_code (server i))"
  have "urlopen (max_retries default_session) server 0 =
      Inl (RetryError (status_code (server (0 + 4))))"
    by (rule urlopen_exhausted[OF default_standard(1)]) (use h default_standard(2) in simp_all)
  then show g: "sess_get default_session server = Inl (RetryError (status_code (server 4)))"
    by (simp add: sess_get_def)
  then show "fetch_days_csv pd hot default_session server =
      Inl (RetryError (status_code (server 4)))"
    by (simp add: fetch_days_csv_def)
next
  assume "forced (status_code (server 0))"
  then have "raises_for_status (server 0)"
    by (auto simp: forced_def raises_for_status_def)
  then show "fetch_days_csv_plain pd hot server =
         Inl (RequestsHTTPError (status_code (server 0)) (response_text (server 0)))"
    by (simp add: fetch_days_csv_plain_def requests_get_def)
next
  show "map (\<lambda>n. get_backoff_time ((max_retries default_session)\<lparr>history := replicate n 503\<rparr>))
      [1, 2, 3, 4] = [0, 1, 2, 4]"
    by (rule backoff_times)
qed (simp_all add: forced_def default_session_def session_with_retry_def)

lemma server_503s_simps:
  "status_code (server_503s n body k) = (if k < n then 503 else 200)"
  "has_retry_after (server_503s n body k) = False"
  "response_text (server_503s n body k) = (if k < n then [] else body)"
  by (simp_all add: server_503s_def reply_def)

lemma parse_sample:
  "(parse_and_derive pd_sample 30 body_sample :: char error + int frame) = Inr sample_out"
proof -
  have "read_csv pd_sample body_sample = Some sample_frame"
    by (rule read_csv_sample_values)
  then show ?thesis by (simp add: parse_and_derive_def derive_sample)
qed

theorem retry_budget_witness:
  "sess_get default_session (server_503s 3 body_sample) = Inr (reply 200 body_sample) \<and>
   (fetch_days_csv pd_sample 30 default_session (server_503s 3 body_sample)
      :: char error + int frame) = Inr sample_out \<and>
   (fetch_days_csv pd_sample 30 default_session (server_503s 5 body_sample)
      :: char error + int frame) = Inl (RetryError 503) \<and>
   (fetch_days_csv_plain pd_sample 30 (server_503s 3 body_sample)
      :: char error + int frame) = Inl (RequestsHTTPError 503 [])"
proof -
  let ?s3 = "server_503s 3 body_sample" and ?s5 = "server_503s 5 body_sample"
  have f: "forced 503" "\<not> forced 200" by (simp_all add: forced_def)
  have a: "(3::nat) \<le> 4 \<and> (\<forall>i<3. forced (status_code (?s3 i))) \<and>
     \<not> forced (status_code (?s3 3)) \<and> \<not> has_retry_after (?s3 3)"
    using f by (simp add: server_503s_simps)
  have b: "\<forall>i\<le>4. forced (status_code (?s5 i))"
    using f by (simp add: server_503s_simps)
  have c: "forced (status_code (?s3 0))" using f by (simp add: server_503s_simps)
  have ok: "\<not> raises_for_status (?s3 3)"
    by (simp add: raises_for_status_def server_503s_simps)
  note th3 = retry_budget[where server = ?s3 and k = 3 and pd = pd_sample and hot = 30]
  note th5 = retry_budget[where server = ?s5 and k = 3 and pd = pd_sample and hot = 30]
  from th3 a ok have "sess_get default_session ?s3 = Inr (?s3 3)"
    and "(fetch_days_csv pd_sample 30 default_session ?s3 :: char error + int frame) =
      parse_and_derive pd_sample 30 (response_text (?s3 3))"
    by blast+
  moreover from th5 b
  have "(fetch_days_csv pd_sample 30 default_session ?s5 :: char error + int frame) =
      Inl (RetryError (status_code (?s5 4)))"
    by blast
  moreover from th3 c
  have "(fetch_days_csv_plain pd_sample 30 ?s3 :: char error + int frame) =
      Inl (RequestsHTTPError (status_code (?s3 0)) (response_text (?s3 0)))"
    by blast
  ultimately show ?thesis
    by (simp add: server_503s_simps parse_sample) (simp add: server_503s_def)
qed

text \<open>
  Four replies 503 and then 200: the fifth request is sent and the fetch succeeds, where
  the specification has it raise \<open>HttpError\<close>.
\<close>

theorem fifth_attempt_counterexample:
  "map (\<lambda>k. status_code (server_503s 4 body_sample k)) [0, 1, 2, 3, 4] =
     [503, 503, 503, 503, 200] \<and>
   sess_get default_session (server_503s 4 body_sample) = Inr (reply 200 body_sample) \<and>
   (fetch_days_csv pd_sample 30 default_session (server_503s 4 body_sample)
      :: char error + int frame) = Inr sample_out"
proof -
  let ?s = "server_503s 4 body_sample"
  have f: "forced 503" "\<not> forced 200" by (simp_all add: forced_def)
  have "urlopen (max_retries default_session) ?s 0 = Inr (?s (0 + 4))"
    by (rule urlopen_final[OF default_standard(1)])
       (use f default_standard(2) in \<open>simp_all add: server_503s_simps\<close>)
  then have g: "sess_get default_session ?s = Inr (reply 200 body_sample)"
    by (simp add: sess_get_def server_503s_def)
  moreover have "\<not> raises_for_status (reply 200 body_sample)"
    by (simp add: raises_for_status_def reply_def)
  ultimately have "(fetch_days_csv pd_sample 30 default_session ?s :: char error + int frame) =
      parse_and_derive pd_sample 30 body_sample"
    by (simp add: fetch_days_csv_def reply_def)
  then show ?thesis using g by (simp add: parse_sample server_503s_simps)
qed

subsection \<open>The status check\<close>

text \<open>
  C7, amended. When the reply the session hands back has a status from 400 to 599, the
  fetch fails with \<open>HttpError\<close> carrying that status and the first 400 characters of the
  body; for every other status, the 2xx ones among them, it raises no \<open>HttpError\<close>. When
  the session itself raises (retries exhausted), the fetch fails with that
  \<^verbatim>\<open>RetryError\<close>. The plain variants raise the exception of \<^verbatim>\<open>requests\<close>, which holds
  the whole response, for the statuses 400 to 599 and for no other.
\<close>

theorem http_error:
  fixes pd :: "('a::{minus,ord,zero,one}, 'c) pandas" and server :: "nat \<Rightarrow> 'c response"
  shows
   "(\<forall>r. sess_get sess server = Inr r \<longrightarrow>
       (400 \<le> status_code r \<and> status_code r < 600 \<longrightarrow>
          fetch_days_csv pd hot sess server =
            Inl (HttpError (status_code r) (take 400 (response_text r)))) \<and>
       (\<not> (400 \<le> status_code r \<and> status_code r < 600) \<longrightarrow>
          (\<forall>s p. fetch_days_csv pd hot sess server \<noteq> Inl (HttpError s p)))) \<and>
    (\<forall>e. sess_get sess server = Inl e \<longrightarrow>
       fetch_days_csv pd hot sess server = Inl e \<and> (\<exists>s. e = RetryError s)) \<and>
    (400 \<le> status_code (server 0) \<and> status_code (server 0) < 600 \<longrightarrow>
       fetch_days_csv_plain pd hot server =
         Inl (RequestsHTTPError (status_code (server 0)) (response_text (server 0)))) \<and>
    (\<not> (400 \<le> status_code (server 0) \<and> status_code (server 0) < 600) \<longrightarrow>
       (\<forall>s p. fetch_days_csv_plain pd hot server \<noteq> Inl (RequestsHTTPError s p) \<and>
              fetch_days_csv_plain pd hot server \<noteq> Inl (HttpError s p)))"
proof (intro conjI allI impI)
  fix r assume g: "sess_get sess server = Inr r"
  show "fetch_days_csv pd hot sess server =
            Inl (HttpError (status_code r) (take 400 (response_text r)))"
    if "400 \<le> status_code r \<and> status_code r < 600"
    using g that by (simp add: fetch_days_csv_def raises_for_status_def)
  show "fetch_days_csv pd hot sess server \<noteq> Inl (HttpError s p)"
    if "\<not> (400 \<le> status_code r \<and> status_code r < 600)" for s p
    using g that parse_and_derive_not_http(1)[of pd hot "response_text r" s p]
    by (auto simp: fetch_days_csv_def raises_for_status_def)
next
  fix e assume g: "sess_get sess server = Inl e"
  then show "fetch_days_csv pd hot sess server = Inl e"
    by (simp add: fetch_days_csv_def)
  show "\<exists>s. e = RetryError s"
    using g urlopen_errors by (auto simp: sess_get_def)
next
  assume "400 \<le> status_code (server 0) \<and> status_code (server 0) < 600"
  then show "fetch_days_csv_plain pd hot server =
         Inl (RequestsHTTPError (status_code (server 0)) (response_text (server 0)))"
    by (simp add: fetch_days_csv_plain_def requests_get_def raises_for_status_def)
next
  fix s p
  assume h: "\<not> (400 \<le> status_code (server 0) \<and> status_code (server 0) < 600)"
  then have eq: "fetch_days_csv_plain pd hot server =
      parse_and_derive pd hot (response_text (server 0))"
    by (auto simp: fetch_days_csv_plain_def requests_get_def raises_for_status_def)
  show "fetch_days_csv_plain pd hot server \<noteq> Inl (RequestsHTTPError s p)"
    unfolding eq by (rule parse_and_derive_not_http(2))
  show "fetch_days_csv_plain pd hot server \<noteq> Inl (HttpError s p)"
    unfolding eq by (rule parse_and_derive_not_http(1))
qed

lemma sess_get_always:
  "\<not> forced s \<Longrightarrow> sess_get default_session (always (reply s body)) = Inr (reply s body)"
proof -
  assume "\<not> forced s"
  then have "urlopen (max_retries default_session) (always (reply s body)) 0 =
      Inr (always (reply s body) (0 + 0))"
    by (intro urlopen_final[OF default_standard(1)])
       (simp_all add: always_def reply_def default_standard(2))
  then show ?thesis by (simp add: sess_get_def always_def)
qed

theorem http_error_witness:
  "(fetch_days_csv pd_sample 30 default_session
      (always (reply 404 (replicate 500 (CHR ''x'')))) :: char error + int frame) =
     Inl (HttpError 404 (replicate 400 (CHR ''x''))) \<and>
   (fetch_days_csv pd_sample 30 default_session (always (reply 200 body_sample))
      :: char error + int frame) \<noteq> Inl (HttpError 200 body_sample) \<and>
   (fetch_days_csv pd_sample 30 default_session (server_503s 5 body_sample)
      :: char error + int frame) = Inl (RetryError 503) \<and>
   (fetch_days_csv_plain pd_sample 30 (always (reply 404 ''Not Found''))
      :: char error + int frame) = Inl (RequestsHTTPError 404 ''Not Found'')"
proof -
  let ?a = "always (reply 404 (replicate 500 (CHR ''x'')))"
  let ?b = "always (reply 200 body_sample)"
  let ?c = "server_503s 5 body_sample"
  let ?d = "always (reply 404 ''Not Found'')"
  have nf: "\<not> forced 404" "\<not> forced 200" "forced 503" by (simp_all add: forced_def)
  have ga: "sess_get default_session ?a = Inr (reply 404 (replicate 500 (CHR ''x'')))"
    and gb: "sess_get default_session ?b = Inr (reply 200 body_sample)"
    using nf by (simp_all add: sess_get_always)
  have "urlopen (max_retries default_session) ?c 0 = Inl (RetryError (status_code (?c (0 + 4))))"
    by (rule urlopen_exhausted[OF default_standard(1)])
       (use nf default_standard(2) in \<open>simp_all add: server_503s_simps\<close>)
  then have gc: "sess_get default_session ?c = Inl (RetryError 503)"
    by (simp add: sess_get_def server_503s_simps)
  note ta = http_error[where sess = default_session and server = ?a and pd = pd_sample and hot = 30]
  note tb = http_error[where sess = default_session and server = ?b and pd = pd_sample and hot = 30]
  note tc = http_error[where sess = default_session and server = ?c and pd = pd_sample and hot = 30]
  note td = http_error[where sess = default_session and server = ?d and pd = pd_sample and hot = 30]
  from ta ga have "(fetch_days_csv pd_sample 30 default_session ?a :: char error + int frame) =
      Inl (HttpError (status_code (reply 404 (replicate 500 (CHR ''x''))))
            (take 400 (response_text (reply 404 (replicate 500 (CHR ''x''))))))"
    by (simp add: reply_def)
  moreover from tb gb
  have "(fetch_days_csv pd_sample 30 default_session ?b :: char error + int frame) \<noteq>
      Inl (HttpError 200 body_sample)"
    by (simp add: reply_def)
  moreover from tc gc
  have "(fetch_days_csv pd_sample 30 default_session ?c :: char error + int frame) =
      Inl (RetryError 503)"
    by simp
  moreover from td
  have "(fetch_days_csv_plain pd_sample 30 ?d :: char error + int frame) =
      Inl (RequestsHTTPError (status_code (?d 0)) (response_text (?d 0)))"
    by (simp add: always_def reply_def)
  ultimately show ?thesis by (simp add: reply_def always_def)
qed

text \<open>
  Two final statuses outside 2xx without \<open>HttpError\<close>: five replies 503 end in
  \<^verbatim>\<open>RetryError\<close>, and a reply 304 with an empty body passes the status check and fails
  in the parser.
\<close>

theorem http_error_counterexample:
  "(fetch_days_csv pd_sample 30 default_session (server_503s 5 body_sample)
      :: char error + int frame) = Inl (RetryError 503) \<and>
   status_code (reply 304 ([] :: string)) = 304 \<and>
   sess_get default_session (always (reply 304 [])) = Inr (reply 304 ([] :: string)) \<and>
   (fetch_days_csv pd_sample 30 default_session (always (reply 304 []))
      :: char error + int frame) = Inl ReadCsvError \<and>
   (fetch_days_csv_plain pd_sample 30 (always (reply 304 []))
      :: char error + int frame) = Inl ReadCsvError"
proof -
  let ?c = "server_503s 5 body_sample"
  have nf: "\<not> forced 304" "forced 503" by (simp_all add: forced_def)
  have "urlopen (max_retries default_session) ?c 0 = Inl (RetryError (status_code (?c (0 + 4))))"
    by (rule urlopen_exhausted[OF default_standard(1)])
       (use nf default_standard(2) in \<open>simp_all add: server_503s_simps\<close>)
  then have gc: "sess_get default_session ?c = Inl (RetryError 503)"
    by (simp add: sess_get_def server_503s_simps)
  have g: "sess_get default_session (always (reply 304 [])) = Inr (reply 304 ([] :: string))"
    using nf by (simp add: sess_get_always)
  have p: "(parse_and_derive pd_sample 30 [] :: char error + int frame) = Inl ReadCsvError"
    by (simp add: parse_and_derive_def read_csv_sample_values)
  show ?thesis
    using gc g p
    by (simp add: fetch_days_csv_def fetch_days_csv_plain_def requests_get_def
        raises_for_status_def reply_def always_def)
qed

subsection \<open>The command line without a key\<close>

lemma path_join_names:
  "path_join d ''yarin.csv'' \<noteq> path_join d ''week.csv''"
  by (simp add: path_join_def)

lemma path_join_sample:
  "path_join ''crime_prediction_data'' ''yarin.csv'' = ''crime_prediction_data/yarin.csv''"
  "path_join ''crime_prediction_data'' ''week.csv'' = ''crime_prediction_data/week.csv''"
  by (simp_all add: path_join_def)

lemma header_canonical:
  "header = join_with '','' canonical @ [newline]" "length canonical = 9"
  "newline \<notin> set (join_with '','' canonical)"
  by (simp_all add: header_def canonical_def newline_def)

lemma write_placeholder_ok:
  assumes "makedirs_ok h d"
    and "write_fault h (path_join d ''yarin.csv'') = NoFault"
    and "write_fault h (path_join d ''week.csv'') = NoFault"
  shows "(write_placeholder h fs d :: ('c error + unit) \<times> files) =
           (Inr (), fs(path_join d ''yarin.csv'' \<mapsto> header, path_join d ''week.csv'' \<mapsto> header))"
  using assms by (simp add: write_placeholder_def write_unclosed_def)

text \<open>
  C8. Whenever the key is absent (unset or empty) and placeholders are not switched off,
  and the directory and the two files can be written, \<open>run_cli\<close> writes
  \<^verbatim>\<open>yarin.csv\<close> and \<^verbatim>\<open>week.csv\<close>, each holding exactly the line of the nine column names
  and no data row, leaves every other file alone, and ends with status 0. When the key is
  absent and \<^verbatim>\<open>--no-placeholder\<close> is given it exits with status 1 and writes nothing.
\<close>

theorem placeholder_mode:
  fixes h :: "'c host" and pd :: "('a::{minus,ord,zero,one}, 'c) pandas"
  shows
   "(getenv_api_key h = [] \<and> \<not> arg_no_placeholder a \<and> makedirs_ok h (arg_outdir a) \<and>
     write_fault h (path_join (arg_outdir a) ''yarin.csv'') = NoFault \<and>
     write_fault h (path_join (arg_outdir a) ''week.csv'') = NoFault \<longrightarrow>
       (\<exists>fs'. run_cli h pd a fs = (Inr 0, fs') \<and>
          fs' (path_join (arg_outdir a) ''yarin.csv'') = Some header \<and>
          fs' (path_join (arg_outdir a) ''week.csv'') = Some header \<and>
          (\<forall>p. p \<noteq> path_join (arg_outdir a) ''yarin.csv'' \<and>
               p \<noteq> path_join (arg_outdir a) ''week.csv'' \<longrightarrow> fs' p = fs p))) \<and>
    (getenv_api_key h = [] \<and> arg_no_placeholder a \<longrightarrow>
       run_cli h pd a fs = (Inl (SystemExit 1), fs)) \<and>
    header = join_with '','' canonical @ [newline] \<and>
    canonical = [''date'', ''tavg'', ''tmin'', ''tmax'', ''prcp'', ''temp_range'', ''day'',
                 ''is_rainy'', ''is_hot''] \<and>
    newline \<notin> set (join_with '','' canonical)"
proof (intro conjI impI)
  assume h: "getenv_api_key h = [] \<and> \<not> arg_no_placeholder a \<and> makedirs_ok h (arg_outdir a) \<and>
     write_fault h (path_join (arg_outdir a) ''yarin.csv'') = NoFault \<and>
     write_fault h (path_join (arg_outdir a) ''week.csv'') = NoFault"
  let ?y = "path_join (arg_outdir a) ''yarin.csv''" and ?w = "path_join (arg_outdir a) ''week.csv''"
  have "(write_placeholder h fs (arg_outdir a) :: ('c error + unit) \<times> files) =
      (Inr (), fs(?y \<mapsto> header, ?w \<mapsto> header))"
    using h by (intro write_placeholder_ok) simp_all
  then have "run_cli h pd a fs = (Inr 0, fs(?y \<mapsto> header, ?w \<mapsto> header))"
    using h by (simp add: run_cli_def)
  then show "\<exists>fs'. run_cli h pd a fs = (Inr 0, fs') \<and>
          fs' ?y = Some header \<and> fs' ?w = Some header \<and>
          (\<forall>p. p \<noteq> ?y \<and> p \<noteq> ?w \<longrightarrow> fs' p = fs p)"
    using path_join_names[of "arg_outdir a"] by simp
next
  assume "getenv_api_key h = [] \<and> arg_no_placeholder a"
  then show "run_cli h pd a fs = (Inl (SystemExit 1), fs)"
    by (simp add: run_cli_def)
next
  show "header = join_with '','' canonical @ [newline]" by (rule header_canonical(1))
  show "newline \<notin> set (join_with '','' canonical)" by (rule header_canonical(3))
  show "canonical = [''date'', ''tavg'', ''tmin'', ''tmax'', ''prcp'', ''temp_range'', ''day'',
                 ''is_rainy'', ''is_hot'']"
    by (simp add: canonical_def)
qed

theorem placeholder_mode_witness:
  "run_cli host_no_key pd_sample args_sample Map.empty =
     (Inr 0, [''crime_prediction_data/yarin.csv'' \<mapsto> header,
              ''crime_prediction_data/week.csv'' \<mapsto> header]) \<and>
   run_cli host_no_key pd_sample (args_sample\<lparr>arg_no_placeholder := True\<rparr>) Map.empty =
     (Inl (SystemExit 1), Map.empty)"
proof -
  let ?y = "''crime_prediction_data/yarin.csv''" and ?w = "''crime_prediction_data/week.csv''"
  have k: "getenv_api_key host_no_key = []" "makedirs_ok host_no_key p"
    "write_fault host_no_key p = NoFault" for p
    by (simp_all add: host_no_key_def host_sample_def any_dir_def no_faults_def)
  have a: "arg_outdir args_sample = ''crime_prediction_data''" "\<not> arg_no_placeholder args_sample"
    by (simp_all add: args_sample_def)
  note th = placeholder_mode[where h = host_no_key and pd = pd_sample and fs = Map.empty]
  from th[where a = args_sample] k a obtain fs' where
    r: "run_cli host_no_key pd_sample args_sample Map.empty = (Inr 0, fs')"
    and f: "fs' ?y = Some header" "fs' ?w = Some header"
      "\<forall>p. p \<noteq> ?y \<and> p \<noteq> ?w \<longrightarrow> fs' p = Map.empty p"
    unfolding a path_join_sample by blast
  have "fs' = [?y \<mapsto> header, ?w \<mapsto> header]"
  proof
    fix p show "fs' p = [?y \<mapsto> header, ?w \<mapsto> header] p"
      using f by (cases "p = ?y"; cases "p = ?w") auto
  qed
  moreover from th[where a = "args_sample\<lparr>arg_no_placeholder := True\<rparr>"] k
  have "run_cli host_no_key pd_sample (args_sample\<lparr>arg_no_placeholder := True\<rparr>) Map.empty =
     (Inl (SystemExit 1), Map.empty)"
    by simp
  ultimately show ?thesis using r by simp
qed

subsection \<open>The scenario of the specification, end to end\<close>

lemma write_text_outcome:
  "(case write_text h fs path data of
      (res, fs') \<Rightarrow>
        (\<forall>q. q \<noteq> path \<longrightarrow> fs' q = fs q) \<and>
        (case write_fault h path of
           NoFault \<Rightarrow> res = Inr () \<and> fs' path = Some data
         | OpenFails \<Rightarrow> res = Inl (OSError path) \<and> fs' path = fs path
         | WriteFails k \<Rightarrow> res = Inl (OSError path) \<and> fs' path = Some (take k data)))"
  by (simp add: write_text_def split: fault.splits)

lemma fetch_constant:
  fixes pd :: "('a::{minus,ord,zero,one}, 'c) pandas"
  assumes "\<And>k. server k = reply 200 body"
  shows "fetch_days_csv pd hot default_session server = parse_and_derive pd hot body"
proof -
  have "\<not> forced 200" by (simp add: forced_def)
  then have "urlopen (max_retries default_session) server 0 = Inr (server (0 + 0))"
    by (intro urlopen_final[OF default_standard(1)])
       (simp_all add: assms reply_def default_standard(2))
  then show ?thesis
    by (simp add: fetch_days_csv_def sess_get_def assms raises_for_status_def reply_def)
qed

lemma derive_day: "(derive pd_sample 30 frame_day :: char error + int frame) = Inr out_day"
  by code_simp

lemma derive_week: "(derive pd_sample 30 frame_week :: char error + int frame) = Inr out_week"
  by code_simp

lemma compute_dates_scenario:
  "(compute_dates zoneinfo_2024 1718038800 ''America/Los_Angeles'' :: 'c error + date \<times> date) =
     Inr (\<lparr>year = 2024, month = 6, day = 11\<rparr>, \<lparr>year = 2024, month = 6, day = 17\<rparr>)"
proof -
  have z: "zoneinfo_2024 ''America/Los_Angeles'' = Some Los_Angeles_2024"
    by (simp add: zoneinfo_2024_def)
  have rng: "0 < 719163 + (1718038800::int) div 86400"
    "719163 + (1718038800::int) div 86400 \<le> MAXORDINAL"
    "0 < local_ordinal 1718038800 Los_Angeles_2024"
    "local_ordinal 1718038800 Los_Angeles_2024 + 7 \<le> MAXORDINAL"
    by (simp_all add: scenario_local(1) MAXORDINAL_def)
  show ?thesis
    using compute_dates_in_range(2)[where zoneinfo = zoneinfo_2024 and tz = Los_Angeles_2024
        and now = 1718038800, OF z rng] by (simp add: scenario_local(1) scenario_dates)
qed

lemma fetch_scenario:
  "(fetch_days_csv pd_sample 30 default_session
      (web_sample (request_of args_sample key \<lparr>year = 2024, month = 6, day = 11\<rparr>
                     \<lparr>year = 2024, month = 6, day = 11\<rparr>)) :: char error + int frame) = Inr out_day"
  "(fetch_days_csv pd_sample 30 default_session
      (web_sample (request_of args_sample key \<lparr>year = 2024, month = 6, day = 11\<rparr>
                     \<lparr>year = 2024, month = 6, day = 17\<rparr>)) :: char error + int frame) = Inr out_week"
proof -
  show "(fetch_days_csv pd_sample 30 default_session
      (web_sample (request_of args_sample key \<lparr>year = 2024, month = 6, day = 11\<rparr>
                     \<lparr>year = 2024, month = 6, day = 11\<rparr>)) :: char error + int frame) = Inr out_day"
    by (subst fetch_constant[where body = body_day])
       (simp_all add: web_sample_def request_of_def parse_and_derive_def read_csv_sample_values
          derive_day)
  show "(fetch_days_csv pd_sample 30 default_session
      (web_sample (request_of args_sample key \<lparr>year = 2024, month = 6, day = 11\<rparr>
                     \<lparr>year = 2024, month = 6, day = 17\<rparr>)) :: char error + int frame) = Inr out_week"
    by (subst fetch_constant[where body = body_week])
       (simp_all add: web_sample_def request_of_def parse_and_derive_def read_csv_sample_values
          derive_week)
qed

lemma to_csv_sample_values:
  "to_csv pd_sample out_day = csv_day" "to_csv pd_sample out_week = csv_week"
  by (simp_all add: pd_sample_def to_csv_sample_def out_day_def out_week_def)

lemma run_cli_scenario:
  "run_cli host_sample pd_sample args_sample Map.empty =
     (Inr 0, [''crime_prediction_data/yarin.csv'' \<mapsto> csv_day,
              ''crime_prediction_data/week.csv'' \<mapsto> csv_week])"
proof -
  have h: "getenv_api_key host_sample = ''secret''" "time_now host_sample = 1718038800"
    "tzdata host_sample = zoneinfo_2024" "makedirs_ok host_sample p"
    "write_fault host_sample p = NoFault" "web host_sample = web_sample" for p
    by (simp_all add: host_sample_def any_dir_def no_faults_def)
  have a: "arg_outdir args_sample = ''crime_prediction_data''" "arg_hot_threshold args_sample = 30"
    "arg_tz args_sample = ''America/Los_Angeles''"
    by (simp_all add: args_sample_def)
  show ?thesis
    unfolding run_cli_def h a Let_def default_session_def[symmetric]
    by (simp add: compute_dates_scenario fetch_scenario to_csv_sample_values path_join_sample
        write_text_def h)
qed

subsection \<open>What a failed write leaves behind\<close>

text \<open>
  C9, amended. An output file is written in place: the destination is opened, which
  empties it, and the text is written into it. When the write is cut after \<open>k\<close>
  characters the destination is left holding those \<open>k\<close> characters; only when the open
  itself fails is it left as it was. A failure on one destination, or of the second
  fetch, never touches the other: the file written by the earlier step stays complete.
  The same holds for the two placeholder files.
\<close>

theorem writes_in_place:
  fixes h :: "'c host" and pd :: "('a::{minus,ord,zero,one}, 'c) pandas"
  assumes "getenv_api_key h \<noteq> []"
    and "(compute_dates (tzdata h) (time_now h) (arg_tz a) :: 'c error + date \<times> date) =
           Inr (tmrw, wend)"
    and "makedirs_ok h (arg_outdir a)"
    and "fetch_days_csv pd (arg_hot_threshold a) (session_with_retry 4 (1 / 2) 30)
           (web h (request_of a (getenv_api_key h) tmrw tmrw)) = Inr df_t"
    and "yarin = path_join (arg_outdir a) ''yarin.csv''"
    and "week = path_join (arg_outdir a) ''week.csv''"
    and "fetch_week = fetch_days_csv pd (arg_hot_threshold a) (session_with_retry 4 (1 / 2) 30)
           (web h (request_of a (getenv_api_key h) tmrw wend))"
  shows
   "(write_fault h yarin = OpenFails \<longrightarrow> run_cli h pd a fs = (Inl (OSError yarin), fs)) \<and>
    (\<forall>k. write_fault h yarin = WriteFails k \<longrightarrow>
       run_cli h pd a fs = (Inl (OSError yarin), fs(yarin \<mapsto> take k (to_csv pd df_t)))) \<and>
    (write_fault h yarin = NoFault \<longrightarrow>
       (\<forall>e. fetch_week = Inl e \<longrightarrow>
          run_cli h pd a fs = (Inl e, fs(yarin \<mapsto> to_csv pd df_t))) \<and>
       (\<forall>df_w. fetch_week = Inr df_w \<longrightarrow>
          (write_fault h week = OpenFails \<longrightarrow>
             run_cli h pd a fs = (Inl (OSError week), fs(yarin \<mapsto> to_csv pd df_t))) \<and>
          (\<forall>k. write_fault h week = WriteFails k \<longrightarrow>
             run_cli h pd a fs =
               (Inl (OSError week),
                fs(yarin \<mapsto> to_csv pd df_t, week \<mapsto> take k (to_csv pd df_w)))) \<and>
          (write_fault h week = NoFault \<longrightarrow>
             run_cli h pd a fs =
               (Inr 0, fs(yarin \<mapsto> to_csv pd df_t, week \<mapsto> to_csv pd df_w))))) \<and>
    (write_fault h yarin = NoFault \<longrightarrow>
       (\<forall>k. write_fault h week = WriteFails k \<longrightarrow>
          snd (write_placeholder h fs (arg_outdir a) :: ('c error + unit) \<times> files) =
            fs(yarin \<mapsto> header, week \<mapsto> take k header))) \<and>
    yarin \<noteq> week"
proof -
  have ne: "yarin \<noteq> week" unfolding assms(5,6) by (rule path_join_names)
  have pre: "run_cli h pd a fs =
    (case write_text h fs yarin (to_csv pd df_t) of
       (Inl e, fs1) \<Rightarrow> (Inl e, fs1)
     | (Inr _, fs1) \<Rightarrow>
        (case fetch_week of
           Inl e \<Rightarrow> (Inl e, fs1)
         | Inr df_w \<Rightarrow>
            (case write_text h fs1 week (to_csv pd df_w) of
               (Inl e, fs2) \<Rightarrow> (Inl e, fs2)
             | (Inr _, fs2) \<Rightarrow> (Inr 0, fs2))))"
    using assms(1-4) unfolding assms(5-7) by (simp add: run_cli_def Let_def)
  have ph: "snd (write_placeholder h fs (arg_outdir a) :: ('c error + unit) \<times> files) =
      fs(yarin \<mapsto> header, week \<mapsto> take k header)"
    if "write_fault h yarin = NoFault" "write_fault h week = WriteFails k" for k
    using that assms(3) unfolding assms(5,6)
    by (simp add: write_placeholder_def write_unclosed_def)
  have main: "(write_fault h yarin = OpenFails \<longrightarrow> run_cli h pd a fs = (Inl (OSError yarin), fs)) \<and>
    (\<forall>k. write_fault h yarin = WriteFails k \<longrightarrow>
       run_cli h pd a fs = (Inl (OSError yarin), fs(yarin \<mapsto> take k (to_csv pd df_t)))) \<and>
    (write_fault h yarin = NoFault \<longrightarrow>
       (\<forall>e. fetch_week = Inl e \<longrightarrow>
          run_cli h pd a fs = (Inl e, fs(yarin \<mapsto> to_csv pd df_t))) \<and>
       (\<forall>df_w. fetch_week = Inr df_w \<longrightarrow>
          (write_fault h week = OpenFails \<longrightarrow>
             run_cli h pd a fs = (Inl (OSError week), fs(yarin \<mapsto> to_csv pd df_t))) \<and>
          (\<forall>k. write_fault h week = WriteFails k \<longrightarrow>
             run_cli h pd a fs =
               (Inl (OSError week),
                fs(yarin \<mapsto> to_csv pd df_t, week \<mapsto> take k (to_csv pd df_w)))) \<and>
          (write_fault h week = NoFault \<longrightarrow>
             run_cli h pd a fs =
               (Inr 0, fs(yarin \<mapsto> to_csv pd df_t, week \<mapsto> to_csv pd df_w)))))"
    unfolding pre using ne
    by (auto simp: write_text_def split: sum.splits)
  show ?thesis using main ph ne by simp
qed

theorem writes_in_place_witness:
  "run_cli host_week_cut pd_sample args_sample Map.empty =
     (Inl (OSError ''crime_prediction_data/week.csv''),
      [''crime_prediction_data/yarin.csv'' \<mapsto> csv_day,
       ''crime_prediction_data/week.csv'' \<mapsto> take 100 csv_week]) \<and>
   ''crime_prediction_data/yarin.csv'' \<noteq> ''crime_prediction_data/week.csv''"
proof -
  let ?y = "''crime_prediction_data/yarin.csv''" and ?w = "''crime_prediction_data/week.csv''"
  let ?d11 = "\<lparr>year = 2024, month = 6, day = 11\<rparr>" and ?d17 = "\<lparr>year = 2024, month = 6, day = 17\<rparr>"
  have h: "getenv_api_key host_week_cut = ''secret''" "time_now host_week_cut = 1718038800"
    "tzdata host_week_cut = zoneinfo_2024" "makedirs_ok host_week_cut p"
    "web host_week_cut = web_sample" "write_fault host_week_cut = week_cut" for p
    by (simp_all add: host_week_cut_def host_sample_def any_dir_def)
  have a: "arg_outdir args_sample = ''crime_prediction_data''" "arg_hot_threshold args_sample = 30"
    "arg_tz args_sample = ''America/Los_Angeles''"
    by (simp_all add: args_sample_def)
  have w: "week_cut ?y = NoFault" "week_cut ?w = WriteFails 100"
    by (simp_all add: week_cut_def)
  have p1: "getenv_api_key host_week_cut \<noteq> []" by (simp add: h)
  have p2: "(compute_dates (tzdata host_week_cut) (time_now host_week_cut) (arg_tz args_sample)
      :: char error + date \<times> date) = Inr (?d11, ?d17)"
    unfolding h a by (rule compute_dates_scenario)
  have p3: "makedirs_ok host_week_cut (arg_outdir args_sample)" by (simp add: h)
  have p4: "fetch_days_csv pd_sample (arg_hot_threshold args_sample)
      (session_with_retry 4 (1 / 2) 30)
      (web host_week_cut (request_of args_sample (getenv_api_key host_week_cut) ?d11 ?d11)) =
      Inr out_day"
    unfolding h a default_session_def[symmetric] by (rule fetch_scenario)
  have p5: "fetch_days_csv pd_sample (arg_hot_threshold args_sample)
      (session_with_retry 4 (1 / 2) 30)
      (web host_week_cut (request_of args_sample (getenv_api_key host_week_cut) ?d11 ?d17)) =
      Inr out_week"
    unfolding h a default_session_def[symmetric] by (rule fetch_scenario)
  have y: "?y = path_join (arg_outdir args_sample) ''yarin.csv''"
    and w': "?w = path_join (arg_outdir args_sample) ''week.csv''"
    by (simp_all add: a path_join_sample)
  note th = writes_in_place[OF p1 p2 p3 p4 y w' refl, where fs = Map.empty]
  from th have "write_fault host_week_cut ?y = NoFault \<longrightarrow>
      write_fault host_week_cut ?w = WriteFails 100 \<longrightarrow>
      run_cli host_week_cut pd_sample args_sample Map.empty =
        (Inl (OSError ?w),
         [?y \<mapsto> to_csv pd_sample out_day, ?w \<mapsto> take 100 (to_csv pd_sample out_week)])"
    unfolding p5 by blast
  moreover from th have "?y \<noteq> ?w" by blast
  ultimately show ?thesis
    by (simp add: h w to_csv_sample_values)
qed

text \<open>
  The scenario on a disk that takes only the first 100 characters of \<^verbatim>\<open>week.csv\<close>: the
  run fails, and the destination is left with the header, the first data row and the
  beginning of the second, 100 of the 316 characters.
\<close>

theorem partial_file_counterexample:
  "run_cli host_week_cut pd_sample args_sample Map.empty =
     (Inl (OSError ''crime_prediction_data/week.csv''),
      [''crime_prediction_data/yarin.csv'' \<mapsto> csv_day,
       ''crime_prediction_data/week.csv'' \<mapsto> take 100 csv_week]) \<and>
   take 100 csv_week =
     header @ ''2024-06-11,18,12,30,0,18,Sal'' @ [CHR 0xC4, CHR 0xB1] @ '',0,1'' @ [newline] @
     ''2024-06-1'' \<and>
   length csv_week = 316 \<and>
   write_fault host_week_cut ''crime_prediction_data/week.csv'' = WriteFails 100"
proof -
  have h: "getenv_api_key host_week_cut = ''secret''" "time_now host_week_cut = 1718038800"
    "tzdata host_week_cut = zoneinfo_2024" "makedirs_ok host_week_cut p"
    "web host_week_cut = web_sample" "write_fault host_week_cut = week_cut" for p
    by (simp_all add: host_week_cut_def host_sample_def any_dir_def)
  have a: "arg_outdir args_sample = ''crime_prediction_data''" "arg_hot_threshold args_sample = 30"
    "arg_tz args_sample = ''America/Los_Angeles''"
    by (simp_all add: args_sample_def)
  have r: "run_cli host_week_cut pd_sample args_sample Map.empty =
     (Inl (OSError ''crime_prediction_data/week.csv''),
      [''crime_prediction_data/yarin.csv'' \<mapsto> csv_day,
       ''crime_prediction_data/week.csv'' \<mapsto> take 100 csv_week])"
    unfolding run_cli_def h a Let_def default_session_def[symmetric]
    by (simp add: compute_dates_scenario fetch_scenario to_csv_sample_values path_join_sample
        write_text_def h week_cut_def)
  have t: "take 100 csv_week =
     header @ ''2024-06-11,18,12,30,0,18,Sal'' @ [CHR 0xC4, CHR 0xB1] @ '',0,1'' @ [newline] @
     ''2024-06-1''" "length csv_week = 316"
    by (simp_all add: csv_week_def header_def)
  show ?thesis using r t by (simp add: h week_cut_def)
qed

end
